theory Spec2Isabelle
  imports Main
begin

section \<open>JavaScript values and built-ins used by the migration module\<close>

text \<open>
  The module under study is \<^verbatim>\<open>core/server/data/migration/index.js\<close>. Strings are
  modelled as \<^typ>\<open>string\<close> (ASCII code units), a JavaScript number that the module
  obtains from \<^verbatim>\<open>parseInt\<close> as \<^typ>\<open>int option\<close> with \<open>None\<close> for \<^verbatim>\<open>NaN\<close>
  (the module only ever handles integers far below \<open>2^53\<close>, where doubles are exact).
\<close>

type_synonym js_number = "int option"

definition is_digit :: "char \<Rightarrow> bool" where
  "is_digit c = (48 \<le> (of_char c :: nat) \<and> (of_char c :: nat) \<le> 57)"

definition digit_val :: "char \<Rightarrow> nat" where
  "digit_val c = of_char c - 48"

definition digit_char :: "nat \<Rightarrow> char" where
  "digit_char d = char_of (48 + d)"

text \<open>White space skipped by \<^verbatim>\<open>parseInt\<close> and \<^verbatim>\<open>Number\<close>: TAB, LF, VT, FF, CR, SP.\<close>

definition is_ws :: "char \<Rightarrow> bool" where
  "is_ws c = ((of_char c :: nat) \<in> {9, 10, 11, 12, 13, 32})"

definition dec_val :: "string \<Rightarrow> nat" where
  "dec_val ds = foldl (\<lambda>a c. 10 * a + digit_val c) 0 ds"

text \<open>
  \<^verbatim>\<open>parseInt(s, 10)\<close>: skip leading white space, read an optional sign, then the longest
  run of decimal digits; \<^verbatim>\<open>NaN\<close> when that run is empty.
\<close>

definition strip_sign :: "string \<Rightarrow> bool \<times> string" where
  "strip_sign t =
     (case t of
        [] \<Rightarrow> (False, t)
      | c # r \<Rightarrow> if c = CHR ''-'' then (True, r)
                 else if c = CHR ''+'' then (False, r)
                 else (False, t))"

definition parseInt :: "string \<Rightarrow> js_number" where
  "parseInt s =
     (let (neg, u) = strip_sign (dropWhile is_ws s);
          ds = takeWhile is_digit u
      in if ds = [] then None
         else Some (if neg then - int (dec_val ds) else int (dec_val ds)))"

text \<open>\<^verbatim>\<open>String(n)\<close> for an integer-valued number, and \<^verbatim>\<open>"NaN"\<close> otherwise.\<close>

fun nat_digits :: "nat \<Rightarrow> string" where
  "nat_digits n =
     (if n < 10 then [digit_char n] else nat_digits (n div 10) @ [digit_char (n mod 10)])"

declare nat_digits.simps [simp del]

definition js_String :: "js_number \<Rightarrow> string" where
  "js_String x =
     (case x of
        None \<Rightarrow> ''NaN''
      | Some n \<Rightarrow> if n < 0 then CHR ''-'' # nat_digits (nat (- n)) else nat_digits (nat n))"

definition js_isNaN_number :: "js_number \<Rightarrow> bool" where
  "js_isNaN_number x = (x = None)"

definition js_plus :: "js_number \<Rightarrow> int \<Rightarrow> js_number" where
  "js_plus x k = map_option (\<lambda>n. n + k) x"

section \<open>Version arithmetic\<close>

definition initialVersion :: string where
  "initialVersion = ''000''"

text \<open>The loop \<^verbatim>\<open>while (v.length < 3) { v = "0" + v; }\<close> of both functions.\<close>

function pad3 :: "string \<Rightarrow> string" where
  "pad3 s = (if length s < 3 then pad3 (CHR ''0'' # s) else s)"
  by pat_completeness auto
termination
  by (relation "measure (\<lambda>s. 3 - length s)") auto

declare pad3.simps [simp del]

definition getVersionAfter :: "string \<Rightarrow> string" where
  "getVersionAfter currVersion =
     (let currVersionNum = parseInt currVersion;
          currVersionNum = (if js_isNaN_number currVersionNum then parseInt initialVersion
                            else currVersionNum);
          currVersionNum = js_plus currVersionNum 1;
          nextVersion = js_String currVersionNum
      in pad3 nextVersion)"

definition getVersionBefore :: "string \<Rightarrow> string" where
  "getVersionBefore currVersion =
     (let currVersionNum = parseInt currVersion;
          currVersionNum = (if js_isNaN_number currVersionNum then parseInt initialVersion
                            else currVersionNum);
          currVersionNum = js_plus currVersionNum (- 1);
          prevVersion = js_String currVersionNum
      in pad3 prevVersion)"

text \<open>A version marker: a three-digit zero-padded numeric string.\<close>

definition is_version :: "string \<Rightarrow> bool" where
  "is_version v = (length v = 3 \<and> list_all is_digit v)"


section \<open>Numeric strings\<close>

text \<open>
  \<^verbatim>\<open>isNaN(x)\<close> converts its argument with \<^verbatim>\<open>Number\<close>. For a string this is the
  \<open>StringNumericLiteral\<close> grammar of ECMAScript 5.1 (section 9.3.1): surrounding white
  space is dropped; the empty string is \<open>0\<close>; otherwise the text must be a hexadecimal
  integer literal, or an optionally signed \<^verbatim>\<open>Infinity\<close> or decimal literal (digits with
  an optional fraction and exponent). \<^verbatim>\<open>null\<close> converts to \<open>0\<close>.
\<close>

definition is_hex_digit :: "char \<Rightarrow> bool" where
  "is_hex_digit c =
     (is_digit c \<or> (65 \<le> (of_char c :: nat) \<and> (of_char c :: nat) \<le> 70)
                \<or> (97 \<le> (of_char c :: nat) \<and> (of_char c :: nat) \<le> 102))"

definition trim_ws :: "string \<Rightarrow> string" where
  "trim_ws s = rev (dropWhile is_ws (rev (dropWhile is_ws s)))"

definition is_hex_literal :: "string \<Rightarrow> bool" where
  "is_hex_literal s =
     (case s of
        z # x # r \<Rightarrow> z = CHR ''0'' \<and> (x = CHR ''x'' \<or> x = CHR ''X'') \<and> r \<noteq> [] \<and> list_all is_hex_digit r
      | _ \<Rightarrow> False)"

definition is_exponent_part :: "string \<Rightarrow> bool" where
  "is_exponent_part s =
     (case s of
        [] \<Rightarrow> True
      | e # r \<Rightarrow> (e = CHR ''e'' \<or> e = CHR ''E'') \<and>
                 (let ds = snd (strip_sign r) in ds \<noteq> [] \<and> list_all is_digit ds))"

definition is_decimal_literal :: "string \<Rightarrow> bool" where
  "is_decimal_literal s =
     (if s = ''Infinity'' then True
      else let ds = takeWhile is_digit s; r = dropWhile is_digit s
           in case r of
                [] \<Rightarrow> ds \<noteq> []
              | c # r' \<Rightarrow>
                  if c = CHR ''.''
                  then (ds \<noteq> [] \<or> takeWhile is_digit r' \<noteq> []) \<and>
                       is_exponent_part (dropWhile is_digit r')
                  else ds \<noteq> [] \<and> is_exponent_part r)"

definition is_numeric_string :: "string \<Rightarrow> bool" where
  "is_numeric_string s =
     (let t = trim_ws s
      in t = [] \<or> is_hex_literal t \<or> is_decimal_literal (snd (strip_sign t)))"

text \<open>A value read from a nullable text column: \<open>None\<close> is SQL \<^verbatim>\<open>NULL\<close> (JavaScript \<^verbatim>\<open>null\<close>).\<close>

type_synonym db_value = "string option"

definition js_isNaN :: "db_value \<Rightarrow> bool" where
  "js_isNaN x = (case x of None \<Rightarrow> False | Some s \<Rightarrow> \<not> is_numeric_string s)"

text \<open>\<^verbatim>\<open>parseInt(x, 10)\<close> on such a value: \<^verbatim>\<open>null\<close> is first converted to the string \<^verbatim>\<open>"null"\<close>.\<close>

definition parseInt_value :: "db_value \<Rightarrow> js_number" where
  "parseInt_value x = (case x of None \<Rightarrow> parseInt ''null'' | Some s \<Rightarrow> parseInt s)"

text \<open>\<^verbatim>\<open>a > b\<close> on numbers: false as soon as one side is \<^verbatim>\<open>NaN\<close>.\<close>

definition js_gt :: "js_number \<Rightarrow> js_number \<Rightarrow> bool" where
  "js_gt a b = (case (a, b) of (Some x, Some y) \<Rightarrow> y < x | _ \<Rightarrow> False)"

text \<open>\<^verbatim>\<open>a < b\<close> on two strings: lexicographic comparison of code units.\<close>

fun js_str_lt :: "string \<Rightarrow> string \<Rightarrow> bool" where
  "js_str_lt [] [] = False"
| "js_str_lt [] (y # ys) = True"
| "js_str_lt (x # xs) [] = False"
| "js_str_lt (x # xs) (y # ys) =
     (if (of_char x :: nat) < of_char y then True
      else if (of_char y :: nat) < of_char x then False
      else js_str_lt xs ys)"

definition to_lower :: "char \<Rightarrow> char" where
  "to_lower c =
     (if 65 \<le> (of_char c :: nat) \<and> (of_char c :: nat) \<le> 90 then char_of ((of_char c :: nat) + 32)
      else c)"

definition toLowerCase :: "string \<Rightarrow> string" where
  "toLowerCase s = map to_lower s"


section \<open>The database, the promise chain and the trace of operations\<close>

text \<open>
  A rejection reason or thrown value is either a plain string (as in
  \<^verbatim>\<open>when.reject("No support for database client " + client)\<close>) or an \<^verbatim>\<open>Error\<close> object
  carrying a message (as in \<^verbatim>\<open>throw new Error('Settings table does not exist')\<close>).
\<close>

datatype js_value = JStr string | JError string

text \<open>The statements the module sends through \<^verbatim>\<open>knex\<close>.\<close>

datatype query =
    HasTable string
  | SelectVersions
  | UpdateVersion db_value
  | CreateTable string
  | DropTableIfExists string
  | SqliteMaster
  | ShowTables
  | PgTables
  | ShowPostFields
  | AlterPostsModify string

text \<open>
  The trace records when a statement is handed to the database (\<open>Issued\<close>) and when the
  promise chain has seen it settle (\<open>Settled\<close>), together with the calls into the fixtures
  loader, the settings model and the error sink.
\<close>

datatype event =
    Issued query
  | Settled query
  | PopulateFixtures
  | PopulateDefaults
  | LogErrorAndExit string js_value

text \<open>
  The state: the live tables in catalogue order, the rows (key, value) of the
  \<^verbatim>\<open>settings\<close> table, the rows (Field, Type) that \<^verbatim>\<open>SHOW FIELDS FROM posts\<close> lists, the
  module variable \<^verbatim>\<open>defaultDatabaseVersion\<close> (\<open>None\<close> is \<^verbatim>\<open>undefined\<close>), the trace, and the
  statements that were issued and whose settlement nothing has waited for yet.
\<close>

record world =
  tables :: "string list"
  settings :: "(string \<times> db_value) list"
  posts_fields :: "(string \<times> string) list"
  defaultDatabaseVersion :: "string option"
  trace :: "event list"
  inflight :: "query list"

text \<open>
  What the module takes from the modules it requires (\<^verbatim>\<open>models/base\<close>, \<^verbatim>\<open>schema\<close>,
  \<^verbatim>\<open>default-settings\<close>, \<^verbatim>\<open>errorHandling\<close>), as parameters: the engine name \<^verbatim>\<open>client\<close>, the
  table names \<^verbatim>\<open>_.keys(schema)\<close> (the keys of an object, so they are distinct), the entries
  (key, defaultValue) of \<^verbatim>\<open>defaultSettings.core\<close>, the listing a \<^verbatim>\<open>posts\<close> table created from
  the schema has, and the value \<^verbatim>\<open>errors.throwError\<close> raises for a message.
\<close>

record env =
  client :: string
  schemaTables :: "string list"
  defaultSettings_core :: "(string \<times> string) list"
  schema_posts_fields :: "(string \<times> string) list"
  throwError :: "string \<Rightarrow> js_value"

text \<open>
  A promise is run against the state and resolves, rejects, or never settles because the
  process has exited.
\<close>

datatype 'a outcome = Resolved 'a | Rejected js_value | Exited

type_synonym 'a promise = "world \<Rightarrow> 'a outcome \<times> world"

definition resolve :: "'a \<Rightarrow> 'a promise" where
  "resolve x w = (Resolved x, w)"

definition reject :: "js_value \<Rightarrow> 'a promise" where
  "reject e w = (Rejected e, w)"

text \<open>\<^verbatim>\<open>p.then(f)\<close>: \<open>f\<close> runs once \<open>p\<close> has resolved; a rejection passes through.\<close>

definition p_then :: "'a promise \<Rightarrow> ('a \<Rightarrow> 'b promise) \<Rightarrow> 'b promise" where
  "p_then p f w =
     (case p w of
        (Resolved x, w') \<Rightarrow> f x w'
      | (Rejected e, w') \<Rightarrow> (Rejected e, w')
      | (Exited, w') \<Rightarrow> (Exited, w'))"

text \<open>
  \<^verbatim>\<open>p.then(f, g)\<close>: \<open>g\<close> handles a rejection of \<open>p\<close> only, not an error raised by \<open>f\<close>.
\<close>

definition p_then_else :: "'a promise \<Rightarrow> ('a \<Rightarrow> 'b promise) \<Rightarrow> (js_value \<Rightarrow> 'b promise) \<Rightarrow> 'b promise" where
  "p_then_else p f g w =
     (case p w of
        (Resolved x, w') \<Rightarrow> f x w'
      | (Rejected e, w') \<Rightarrow> g e w'
      | (Exited, w') \<Rightarrow> (Exited, w'))"

text \<open>
  A statement is handed to the database with \<open>issue\<close>; a step of the chain that waits for
  it continues after \<open>settle\<close>, fulfilled or rejected. The effect of a statement is part of
  the state once it has settled; nothing is known to the chain about a statement that is
  still in flight.
\<close>

definition issue :: "query \<Rightarrow> world \<Rightarrow> world" where
  "issue q w = w\<lparr>trace := trace w @ [Issued q], inflight := inflight w @ [q]\<rparr>"

definition settle :: "query \<Rightarrow> world \<Rightarrow> world" where
  "settle q w = w\<lparr>trace := trace w @ [Settled q], inflight := remove1 q (inflight w)\<rparr>"

definition log_event :: "event \<Rightarrow> world \<Rightarrow> world" where
  "log_event e w = w\<lparr>trace := trace w @ [e]\<rparr>"

subsection \<open>Statements\<close>

definition knex_schema_hasTable :: "string \<Rightarrow> bool promise" where
  "knex_schema_hasTable t w =
     (let w1 = issue (HasTable t) w
      in (Resolved (t \<in> set (tables w1)), settle (HasTable t) w1))"

definition is_version_key :: "string \<Rightarrow> bool" where
  "is_version_key k = (k = ''databaseVersion'' \<or> k = ''currentVersion'')"

text \<open>
  \<^verbatim>\<open>knex('settings').where('key', 'databaseVersion').orWhere('key', 'currentVersion').select('value')\<close>
\<close>

definition knex_select_versions :: "db_value list promise" where
  "knex_select_versions w =
     (let w1 = issue SelectVersions w
      in if ''settings'' \<in> set (tables w1)
         then (Resolved (map snd (filter (\<lambda>row. is_version_key (fst row)) (settings w1))),
               settle SelectVersions w1)
         else (Rejected (JError ''no such table: settings''), settle SelectVersions w1))"

text \<open>
  \<^verbatim>\<open>knex('settings').where('key', 'databaseVersion').update({ 'value': v })\<close>; resolves with
  the number of rows changed.
\<close>

definition knex_update_version :: "db_value \<Rightarrow> nat promise" where
  "knex_update_version v w =
     (let w1 = issue (UpdateVersion v) w
      in if ''settings'' \<in> set (tables w1)
         then (Resolved (length (filter (\<lambda>row. fst row = ''databaseVersion'') (settings w1))),
               settle (UpdateVersion v)
                 (w1\<lparr>settings :=
                       map (\<lambda>row. if fst row = ''databaseVersion'' then (fst row, v) else row)
                         (settings w1)\<rparr>))
         else (Rejected (JError ''no such table: settings''), settle (UpdateVersion v) w1))"

text \<open>
  \<^verbatim>\<open>knex.schema.createTable(table, ...)\<close> is a plain \<^verbatim>\<open>CREATE TABLE\<close>: it fails when the table
  exists. The column callback of \<^verbatim>\<open>createTable\<close> (driven by the schema file) is not modelled
  beyond the listing of a new \<^verbatim>\<open>posts\<close> table.
\<close>

definition knex_schema_createTable :: "env \<Rightarrow> string \<Rightarrow> unit promise" where
  "knex_schema_createTable env t w =
     (let w1 = issue (CreateTable t) w
      in if t \<in> set (tables w1)
         then (Rejected (JError (''table '' @ t @ '' already exists'')), settle (CreateTable t) w1)
         else (Resolved (),
               settle (CreateTable t)
                 (w1\<lparr>tables := tables w1 @ [t],
                     settings := (if t = ''settings'' then [] else settings w1),
                     posts_fields := (if t = ''posts'' then schema_posts_fields env
                                      else posts_fields w1)\<rparr>)))"

definition knex_schema_dropTableIfExists :: "string \<Rightarrow> unit promise" where
  "knex_schema_dropTableIfExists t w =
     (let w1 = issue (DropTableIfExists t) w
      in (Resolved (),
          settle (DropTableIfExists t)
            (w1\<lparr>tables := removeAll t (tables w1),
                settings := (if t = ''settings'' then [] else settings w1),
                posts_fields := (if t = ''posts'' then [] else posts_fields w1)\<rparr>)))"

text \<open>The three catalogue statements answer with the live table names.\<close>

definition knex_raw_catalogue :: "query \<Rightarrow> string list promise" where
  "knex_raw_catalogue q w = (let w1 = issue q w in (Resolved (tables w1), settle q w1))"

text \<open>\<^verbatim>\<open>SHOW FIELDS FROM posts where Field ='html' OR Field = 'markdown'\<close>\<close>

definition knex_raw_show_post_fields :: "(string \<times> string) list promise" where
  "knex_raw_show_post_fields w =
     (let w1 = issue ShowPostFields w
      in if ''posts'' \<in> set (tables w1)
         then (Resolved (filter (\<lambda>entry. fst entry = ''html'' \<or> fst entry = ''markdown'')
                           (posts_fields w1)),
               settle ShowPostFields w1)
         else (Rejected (JError ''table posts does not exist''), settle ShowPostFields w1))"

subsection \<open>The external collaborators\<close>

text \<open>
  Modelled from the spec: \<^verbatim>\<open>errors.logErrorAndExit\<close> (the error handling module is not
  among the sources) is the error-reporting sink that logs a headline and a detail and
  exits the process.
\<close>

definition logErrorAndExit :: "string \<Rightarrow> js_value \<Rightarrow> 'a promise" where
  "logErrorAndExit headline detail w = (Exited, log_event (LogErrorAndExit headline detail) w)"

text \<open>
  Modelled from the spec: \<^verbatim>\<open>fixtures.populateFixtures\<close> (the fixtures loader is not among
  the sources) inserts seed data; none of it is read by the migration module.
\<close>

definition populateFixtures :: "unit promise" where
  "populateFixtures w = (Resolved (), log_event PopulateFixtures w)"

text \<open>
  Modelled from the spec: \<^verbatim>\<open>Settings.populateDefaults\<close> (the settings model is not among
  the sources) populates the default settings values, that is, a row for every default
  key that has none yet.
\<close>

definition populateDefaults :: "env \<Rightarrow> unit promise" where
  "populateDefaults env w =
     (let w1 = log_event PopulateDefaults w
      in if ''settings'' \<in> set (tables w1)
         then (Resolved (),
               w1\<lparr>settings := settings w1 @
                     map (\<lambda>d. (fst d, Some (snd d)))
                       (filter (\<lambda>d. fst d \<notin> fst ` set (settings w1)) (defaultSettings_core env))\<rparr>)
         else (Rejected (JError ''no such table: settings''), w1))"


section \<open>The migration module\<close>

text \<open>
  The file holds two export blocks, the two sides of an unresolved merge. The first
  (the table-diff design: \<^verbatim>\<open>init\<close>, \<^verbatim>\<open>reset\<close>, \<^verbatim>\<open>migrateUp\<close>, \<^verbatim>\<open>migrateUpFreshDb\<close>) is the one
  modelled below; \<^verbatim>\<open>getVersionAfter\<close> and \<^verbatim>\<open>getVersionBefore\<close> above come from the second.
  Source lines: \<^verbatim>\<open>getDefaultDatabaseVersion\<close> 26-35, \<^verbatim>\<open>getDatabaseVersion\<close> 40-67,
  \<^verbatim>\<open>setDatabaseVersion\<close> 69-73, \<^verbatim>\<open>createTable\<close> 75-113, \<^verbatim>\<open>deleteTable\<close> 115-117,
  \<^verbatim>\<open>getDeleteCommands\<close> 119-128, \<^verbatim>\<open>getAddCommands\<close> 130-139, the three enumerations 141-161,
  \<^verbatim>\<open>init\<close> 164-203, \<^verbatim>\<open>reset\<close> 207-216, \<^verbatim>\<open>migrateUpFreshDb\<close> 219-234,
  \<^verbatim>\<open>checkMySQLPostTable\<close> 240-250, \<^verbatim>\<open>migrateUp\<close> 253-278, \<^verbatim>\<open>getTables\<close> 280-291,
  \<^verbatim>\<open>getVersionAfter\<close> 439-458, \<^verbatim>\<open>getVersionBefore\<close> 460-477.
\<close>

text \<open>
  \<^verbatim>\<open>getDefaultDatabaseVersion\<close>: the cached value is recomputed while it is falsy
  (\<^verbatim>\<open>undefined\<close> or the empty string); \<^verbatim>\<open>_.find\<close> answers \<^verbatim>\<open>undefined\<close> when no entry has the
  key, and reading \<^verbatim>\<open>defaultValue\<close> of it throws.
\<close>

definition find_databaseVersion :: "env \<Rightarrow> string promise" where
  "find_databaseVersion env w =
     (case find (\<lambda>setting. fst setting = ''databaseVersion'') (defaultSettings_core env) of
        None \<Rightarrow> (Rejected (JError ''Cannot read property defaultValue of undefined''), w)
      | Some setting \<Rightarrow>
          (Resolved (snd setting), w\<lparr>defaultDatabaseVersion := Some (snd setting)\<rparr>))"

definition getDefaultDatabaseVersion :: "env \<Rightarrow> string promise" where
  "getDefaultDatabaseVersion env w =
     (case defaultDatabaseVersion w of
        None \<Rightarrow> find_databaseVersion env w
      | Some v \<Rightarrow> if v = [] then find_databaseVersion env w else (Resolved v, w))"

text \<open>
  The \<^verbatim>\<open>_.reduce\<close> of \<^verbatim>\<open>getDatabaseVersion\<close> over the selected values, starting from
  \<^verbatim>\<open>initialVersion\<close>; \<open>Inl\<close> is the value raised by \<^verbatim>\<open>errors.throwError\<close>.
\<close>

fun reduce_versions :: "env \<Rightarrow> db_value list \<Rightarrow> string \<Rightarrow> js_value + string" where
  "reduce_versions env [] memo = Inr memo"
| "reduce_versions env (version # versions) memo =
     (if js_isNaN version then Inl (throwError env ''Database version is not recognised'')
      else reduce_versions env versions
             (case version of
                None \<Rightarrow> memo
              | Some value \<Rightarrow>
                  if js_gt (parseInt_value version) (parseInt memo) then value else memo))"

definition getDatabaseVersion :: "env \<Rightarrow> string promise" where
  "getDatabaseVersion env =
     p_then (knex_schema_hasTable ''settings'') (\<lambda>exists.
       if exists
       then p_then knex_select_versions (\<lambda>versions.
              case reduce_versions env versions initialVersion of
                Inl e \<Rightarrow> reject e
              | Inr databaseVersion \<Rightarrow>
                  resolve (if databaseVersion = [] then initialVersion else databaseVersion))
       else reject (JError ''Settings table does not exist''))"

text \<open>\<^verbatim>\<open>setDatabaseVersion\<close> takes no argument: it writes the module variable.\<close>

definition setDatabaseVersion :: "nat promise" where
  "setDatabaseVersion w = knex_update_version (defaultDatabaseVersion w) w"

definition createTable :: "env \<Rightarrow> string \<Rightarrow> unit promise" where
  "createTable env table = knex_schema_createTable env table"

definition deleteTable :: "string \<Rightarrow> unit promise" where
  "deleteTable table = knex_schema_dropTableIfExists table"

text \<open>\<^verbatim>\<open>_.difference(xs, ys)\<close> keeps, in order, the elements of \<open>xs\<close> that are not in \<open>ys\<close>.\<close>

definition difference :: "'a list \<Rightarrow> 'a list \<Rightarrow> 'a list" where
  "difference xs ys = filter (\<lambda>x. x \<notin> set ys) xs"

text \<open>Both functions return \<^verbatim>\<open>undefined\<close> (\<open>None\<close>) when there is nothing to do.\<close>

definition getDeleteCommands :: "string list \<Rightarrow> string list \<Rightarrow> unit promise list option" where
  "getDeleteCommands oldTables newTables =
     (let deleteTables = difference oldTables newTables
      in if deleteTables \<noteq> [] then Some (map (\<lambda>table. deleteTable table) deleteTables)
         else None)"

definition getAddCommands :: "env \<Rightarrow> string list \<Rightarrow> string list \<Rightarrow> unit promise list option" where
  "getAddCommands env oldTables newTables =
     (let addTables = difference newTables oldTables
      in if addTables \<noteq> [] then Some (map (\<lambda>table. createTable env table) addTables)
         else None)"

definition getTablesFromSqlite3 :: "string list promise" where
  "getTablesFromSqlite3 =
     p_then (knex_raw_catalogue SqliteMaster) (\<lambda>response.
       resolve (filter (\<lambda>name. \<not> (name = ''sqlite_sequence'')) response))"

definition getTablesFromPgSQL :: "string list promise" where
  "getTablesFromPgSQL =
     p_then (knex_raw_catalogue PgTables) (\<lambda>response. resolve response)"

text \<open>Each row of \<^verbatim>\<open>show tables\<close> is an object with one property; its values are flattened.\<close>

definition getTablesFromMySQL :: "string list promise" where
  "getTablesFromMySQL =
     p_then (knex_raw_catalogue ShowTables) (\<lambda>response.
       resolve (concat (map (\<lambda>entry. [entry]) response)))"

definition getTables :: "env \<Rightarrow> string list promise" where
  "getTables env =
     (if client env = ''sqlite3'' then getTablesFromSqlite3
      else if client env = ''mysql'' then getTablesFromMySQL
      else if client env = ''pg'' then getTablesFromPgSQL
      else reject (JStr (''No support for database client '' @ client env)))"

text \<open>
  \<^verbatim>\<open>when/sequence\<close>: the tasks run one after the other, each once the one before has
  resolved; the first rejection ends the run.
\<close>

fun sequence :: "'a promise list \<Rightarrow> 'a list promise" where
  "sequence [] = resolve []"
| "sequence (task # tasks) =
     p_then task (\<lambda>x. p_then (sequence tasks) (\<lambda>xs. resolve (x # xs)))"

text \<open>
  \<^verbatim>\<open>checkMySQLPostTable\<close>: the callback maps over the listed fields and, for a field whose
  type is not \<^verbatim>\<open>mediumtext\<close>, sends the \<^verbatim>\<open>ALTER TABLE\<close> statement. What the callback returns is
  the array of the resulting promises (\<^verbatim>\<open>undefined\<close> for the other fields); an array is not
  a promise, so \<^verbatim>\<open>then\<close> resolves with it as it is and nothing waits for the statements.
\<close>

fun check_entries :: "(string \<times> string) list \<Rightarrow> world \<Rightarrow> query option list \<times> world" where
  "check_entries [] w = ([], w)"
| "check_entries (entry # entries) w =
     (if toLowerCase (snd entry) \<noteq> ''mediumtext''
      then (let w1 = issue (AlterPostsModify (fst entry)) w;
                (ps, w2) = check_entries entries w1
            in (Some (AlterPostsModify (fst entry)) # ps, w2))
      else (let (ps, w2) = check_entries entries w in (None # ps, w2)))"

definition checkMySQLPostTable :: "query option list promise" where
  "checkMySQLPostTable =
     p_then knex_raw_show_post_fields (\<lambda>response w.
       (let (ps, w') = check_entries response w in (Resolved ps, w')))"

definition migrateUp :: "env \<Rightarrow> unit promise" where
  "migrateUp env =
     p_then
       (p_then (getTables env) (\<lambda>oldTables.
          if oldTables \<noteq> [] \<and> client env = ''mysql''
          then p_then checkMySQLPostTable (\<lambda>_. resolve oldTables)
          else resolve oldTables))
       (\<lambda>oldTables.
          let deleteCommands = getDeleteCommands oldTables (schemaTables env);
              addCommands = getAddCommands env oldTables (schemaTables env);
              commands = [];
              commands = (case deleteCommands of None \<Rightarrow> commands
                          | Some cs \<Rightarrow> if cs \<noteq> [] then commands @ cs else commands);
              commands = (case addCommands of None \<Rightarrow> commands
                          | Some cs \<Rightarrow> if cs \<noteq> [] then commands @ cs else commands)
          in if commands \<noteq> [] then p_then (sequence commands) (\<lambda>_. resolve ())
             else resolve ())"

definition migrateUpFreshDb :: "env \<Rightarrow> unit promise" where
  "migrateUpFreshDb env =
     p_then (sequence (map (\<lambda>table. createTable env table) (schemaTables env))) (\<lambda>_.
       p_then populateFixtures (\<lambda>_. populateDefaults env))"

definition reset :: "env \<Rightarrow> unit list promise" where
  "reset env = sequence (rev (map (\<lambda>table. deleteTable table) (schemaTables env)))"

text \<open>
  \<^verbatim>\<open>err.message\<close> is \<^verbatim>\<open>undefined\<close> on a string; \<^verbatim>\<open>undefined\<close> and the empty string are falsy.
\<close>

definition message_truthy :: "js_value \<Rightarrow> bool" where
  "message_truthy err = (case err of JStr s \<Rightarrow> False | JError m \<Rightarrow> m \<noteq> [])"

text \<open>\<^verbatim>\<open>err.message || err\<close>\<close>

definition message_or_self :: "js_value \<Rightarrow> js_value" where
  "message_or_self err = (case err of JStr s \<Rightarrow> err | JError m \<Rightarrow> if m \<noteq> [] then JStr m else err)"

text \<open>
  \<^verbatim>\<open>init\<close>. The test of the rejection handler is \<^verbatim>\<open>err.message || err === '...'\<close>, in which
  \<^verbatim>\<open>===\<close> binds tighter than \<^verbatim>\<open>||\<close>.
\<close>

definition init :: "env \<Rightarrow> unit promise" where
  "init env =
     p_then_else (getDatabaseVersion env)
       (\<lambda>databaseVersion.
          p_then (getDefaultDatabaseVersion env) (\<lambda>defaultVersion.
            if databaseVersion = defaultVersion then resolve ()
            else if js_str_lt databaseVersion defaultVersion
            then p_then (migrateUp env) (\<lambda>_. p_then setDatabaseVersion (\<lambda>_. resolve ()))
            else if js_str_lt defaultVersion databaseVersion
            then logErrorAndExit ''Your database is not compatible with this version of Ghost''
                   (JStr ''You will need to create a new database'')
            else resolve ()))
       (\<lambda>err.
          if message_truthy err \<or> err = JStr ''Settings table does not exist''
          then migrateUpFreshDb env
          else logErrorAndExit ''There is a problem with the database'' (message_or_self err))"


section \<open>Observations on states and traces\<close>

text \<open>The values of the settings rows keyed \<^verbatim>\<open>databaseVersion\<close> or \<^verbatim>\<open>currentVersion\<close>.\<close>

definition version_rows :: "world \<Rightarrow> db_value list" where
  "version_rows w = map snd (filter (\<lambda>row. is_version_key (fst row)) (settings w))"

text \<open>The two reads of a version resolve on a database that has a settings table.\<close>

definition read_version_events :: "event list" where
  "read_version_events =
     [Issued (HasTable ''settings''), Settled (HasTable ''settings''),
      Issued SelectVersions, Settled SelectVersions]"

text \<open>The state after those two reads.\<close>

definition after_read :: "world \<Rightarrow> world" where
  "after_read w = settle SelectVersions (issue SelectVersions (settle (HasTable ''settings'') (issue (HasTable ''settings'') w)))"

text \<open>A stored value that is a version marker.\<close>

definition is_version_value :: "db_value \<Rightarrow> bool" where
  "is_version_value v = (case v of None \<Rightarrow> False | Some s \<Rightarrow> is_version s)"

text \<open>The statements that change the database.\<close>

fun is_mutation :: "query \<Rightarrow> bool" where
  "is_mutation (UpdateVersion v) = True"
| "is_mutation (CreateTable t) = True"
| "is_mutation (DropTableIfExists t) = True"
| "is_mutation (AlterPostsModify f) = True"
| "is_mutation q = False"

text \<open>The statements issued in a trace, in order.\<close>

definition issued :: "event list \<Rightarrow> query list" where
  "issued evs = concat (map (\<lambda>e. case e of Issued q \<Rightarrow> [q] | _ \<Rightarrow> []) evs)"

text \<open>A statement that is issued and then waited for.\<close>

definition awaited :: "query \<Rightarrow> event list" where
  "awaited q = [Issued q, Settled q]"

text \<open>Statements run one after the other, each settled before the next is issued.\<close>

definition run_in_sequence :: "query list \<Rightarrow> event list" where
  "run_in_sequence qs = concat (map awaited qs)"

text \<open>The add and delete operations on tables.\<close>

fun is_table_op :: "query \<Rightarrow> bool" where
  "is_table_op (CreateTable t) = True"
| "is_table_op (DropTableIfExists t) = True"
| "is_table_op q = False"

fun is_table_event :: "event \<Rightarrow> bool" where
  "is_table_event (Issued q) = is_table_op q"
| "is_table_event (Settled q) = is_table_op q"
| "is_table_event e = False"

text \<open>The statements of the MySQL repair of the \<^verbatim>\<open>posts\<close> table.\<close>

fun is_repair_query :: "query \<Rightarrow> bool" where
  "is_repair_query ShowPostFields = True"
| "is_repair_query (AlterPostsModify f) = True"
| "is_repair_query q = False"

text \<open>The test of \<^verbatim>\<open>checkMySQLPostTable\<close> on a listed field.\<close>

definition needs_widening :: "(string \<times> string) \<Rightarrow> bool" where
  "needs_widening entry = (toLowerCase (snd entry) \<noteq> ''mediumtext'')"

text \<open>The fields that the \<^verbatim>\<open>SHOW FIELDS\<close> statement lists.\<close>

definition listed_post_fields :: "world \<Rightarrow> (string \<times> string) list" where
  "listed_post_fields w =
     filter (\<lambda>entry. fst entry = ''html'' \<or> fst entry = ''markdown'') (posts_fields w)"

text \<open>The commands of \<^verbatim>\<open>migrateUp\<close>: the deletions followed by the additions.\<close>

definition diff_commands :: "env \<Rightarrow> string list \<Rightarrow> unit promise list" where
  "diff_commands env old =
     map (\<lambda>table. deleteTable table) (difference old (schemaTables env)) @
     map (\<lambda>table. createTable env table) (difference (schemaTables env) old)"

text \<open>Every legacy \<^verbatim>\<open>currentVersion\<close> row holds a version marker not greater than \<open>v\<close>.\<close>

definition legacy_at_most :: "world \<Rightarrow> string \<Rightarrow> bool" where
  "legacy_at_most w v =
     list_all (\<lambda>row. fst row = ''currentVersion'' \<longrightarrow>
                 (case snd row of None \<Rightarrow> False
                  | Some s \<Rightarrow> is_version s \<and> dec_val s \<le> dec_val v))
       (settings w)"

text \<open>The settings table holds a row keyed \<^verbatim>\<open>databaseVersion\<close>.\<close>

definition has_databaseVersion_row :: "world \<Rightarrow> bool" where
  "has_databaseVersion_row w = (''databaseVersion'' \<in> fst ` set (settings w))"

text \<open>A Registry of three tables with default version \<^verbatim>\<open>'004'\<close>, for a given engine; \<^verbatim>\<open>errors.throwError\<close> raises an \<^verbatim>\<open>Error\<close> object carrying the message.\<close>

definition example_env :: "string \<Rightarrow> env" where
  "example_env c =
     \<lparr>client = c,
      schemaTables = [''posts'', ''users'', ''settings''],
      defaultSettings_core = [(''databaseVersion'', ''004''), (''title'', ''Ghost'')],
      schema_posts_fields = [(''html'', ''mediumtext''), (''markdown'', ''mediumtext'')],
      throwError = JError\<rparr>"

text \<open>A database with a legacy table \<^verbatim>\<open>old_widgets\<close>, without \<^verbatim>\<open>users\<close>, whose \<^verbatim>\<open>posts.html\<close> column has the type \<^verbatim>\<open>text\<close>, with the given settings rows.\<close>

definition example_world :: "(string \<times> db_value) list \<Rightarrow> world" where
  "example_world rows =
     \<lparr>tables = [''posts'', ''settings'', ''old_widgets''],
      settings = rows,
      posts_fields = [(''html'', ''text''), (''markdown'', ''mediumtext'')],
      defaultDatabaseVersion = None,
      trace = [],
      inflight = []\<rparr>"

text \<open>The calls of the error sink in a trace.\<close>

definition exit_events :: "event list \<Rightarrow> event list" where
  "exit_events evs = filter (\<lambda>e. case e of LogErrorAndExit h d \<Rightarrow> True | _ \<Rightarrow> False) evs"

text \<open>The rows \<^verbatim>\<open>{databaseVersion: '003', currentVersion: '002'}\<close>.\<close>

definition legacy_pair_world :: world where
  "legacy_pair_world = example_world [(''databaseVersion'', Some ''003''), (''currentVersion'', Some ''002'')]"

text \<open>A database whose marker is above the default version.\<close>

definition newer_world :: world where
  "newer_world = example_world [(''databaseVersion'', Some ''005'')]"

text \<open>A database whose markers are below the default version.\<close>

definition outdated_world :: world where
  "outdated_world = example_world [(''databaseVersion'', Some ''003''), (''currentVersion'', Some ''002'')]"

text \<open>An old database that only has the legacy marker \<^verbatim>\<open>currentVersion\<close>.\<close>

definition legacy_only_world :: world where
  "legacy_only_world = example_world [(''currentVersion'', Some ''002'')]"

text \<open>A database whose legacy marker is above the cached default version.\<close>

definition newer_legacy_world :: world where
  "newer_legacy_world =
     (example_world [(''databaseVersion'', Some ''003''), (''currentVersion'', Some ''005'')])
       \<lparr>defaultDatabaseVersion := Some ''004''\<rparr>"

text \<open>A database whose marker is not numeric.\<close>

definition unrecognised_world :: world where
  "unrecognised_world = example_world [(''databaseVersion'', Some ''abc'')]"

text \<open>A database whose legacy marker is not numeric.\<close>

definition garbled_legacy_world :: world where
  "garbled_legacy_world = example_world [(''databaseVersion'', Some ''003''), (''currentVersion'', Some ''v2'')]"

text \<open>A database without tables.\<close>

definition empty_world :: world where
  "empty_world =
     \<lparr>tables = [], settings = [], posts_fields = [], defaultDatabaseVersion = None,
      trace = [], inflight = []\<rparr>"

text \<open>The three engines \<^verbatim>\<open>getTables\<close> knows.\<close>

definition supported_client :: "env \<Rightarrow> bool" where
  "supported_client env =
     (client env = ''sqlite3'' \<or> client env = ''mysql'' \<or> client env = ''pg'')"

text \<open>The live tables as the enumeration of the engine answers them: the catalogue's names, for SQLite without its internal \<^verbatim>\<open>sqlite_sequence\<close>.\<close>

definition live_tables :: "env \<Rightarrow> world \<Rightarrow> string list" where
  "live_tables env w =
     (if client env = ''sqlite3''
      then filter (\<lambda>name. \<not> (name = ''sqlite_sequence'')) (tables w)
      else tables w)"

text \<open>The MySQL repair query is sent when there are live tables; it fails when there is no \<^verbatim>\<open>posts\<close> table.\<close>

definition repair_query_fails :: "env \<Rightarrow> world \<Rightarrow> bool" where
  "repair_query_fails env w =
     (client env = ''mysql'' \<and> \<not> (live_tables env w = []) \<and> \<not> (''posts'' \<in> set (tables w)))"

text \<open>A database with live tables but without a \<^verbatim>\<open>posts\<close> table.\<close>

definition mysql_without_posts :: world where
  "mysql_without_posts =
     \<lparr>tables = [''settings'', ''old_widgets''],
      settings = [(''databaseVersion'', Some ''003'')],
      posts_fields = [],
      defaultDatabaseVersion = None,
      trace = [],
      inflight = []\<rparr>"

text \<open>A database whose marker is the number 5 written with four digits.\<close>

definition unpadded_newer_world :: world where
  "unpadded_newer_world = example_world [(''databaseVersion'', Some ''0005'')]"

text \<open>A database whose marker is a negative number.\<close>

definition negative_marker_world :: world where
  "negative_marker_world = example_world [(''databaseVersion'', Some ''-5'')]"

text \<open>A database whose markers are not integers.\<close>

definition fractional_marker_world :: world where
  "fractional_marker_world =
     example_world [(''databaseVersion'', Some ''4.5''), (''currentVersion'', Some ''4.9'')]"

text \<open>A database one of whose markers is written with an exponent.\<close>

definition exponent_marker_world :: world where
  "exponent_marker_world =
     example_world [(''databaseVersion'', Some ''1e3''), (''currentVersion'', Some ''002'')]"

text \<open>A database whose markers are the empty string and \<^verbatim>\<open>NULL\<close>.\<close>

definition blank_marker_world :: world where
  "blank_marker_world = example_world [(''databaseVersion'', Some []), (''currentVersion'', None)]"


section \<open>Proofs\<close>

subsection \<open>Digits, padding and parsing\<close>

lemma pad3_eq: "pad3 s = replicate (3 - length s) (CHR ''0'') @ s"
proof (induction s rule: pad3.induct)
  case (1 s)
  show ?case
  proof (cases "length s < 3")
    case True
    then have "pad3 s = pad3 (CHR ''0'' # s)" by (simp add: pad3.simps[of s])
    also have "\<dots> = replicate (3 - length (CHR ''0'' # s)) (CHR ''0'') @ CHR ''0'' # s"
      using 1 True by simp
    also have "\<dots> = replicate (3 - length s) (CHR ''0'') @ s"
      using True by (simp add: replicate_app_Cons_same Suc_diff_Suc flip: replicate_Suc)
    finally show ?thesis .
  next
    case False
    then show ?thesis by (simp add: pad3.simps[of s])
  qed
qed

lemma is_digit_digit_char: "d < 10 \<Longrightarrow> is_digit (digit_char d)"
  by (simp add: is_digit_def digit_char_def)

lemma digit_val_digit_char: "d < 10 \<Longrightarrow> digit_val (digit_char d) = d"
  by (simp add: digit_val_def digit_char_def)

lemma digit_char_digit_val: "is_digit c \<Longrightarrow> digit_char (digit_val c) = c"
  by (simp add: is_digit_def digit_val_def digit_char_def)

lemma digit_val_lt: "is_digit c \<Longrightarrow> digit_val c < 10"
  by (auto simp add: is_digit_def digit_val_def)

lemma is_digit_not_ws: "is_digit c \<Longrightarrow> \<not> is_ws c"
  by (auto simp: is_digit_def is_ws_def)

lemma is_digit_not_sign: "is_digit c \<Longrightarrow> c \<noteq> CHR ''-'' \<and> c \<noteq> CHR ''+''"
  by (auto simp: is_digit_def)

lemma dec_val_snoc: "dec_val (s @ [c]) = 10 * dec_val s + digit_val c"
  by (simp add: dec_val_def)

lemma dec_val_nat_digits: "dec_val (nat_digits n) = n"
proof (induction n rule: nat_digits.induct)
  case (1 n)
  show ?case
  proof (cases "n < 10")
    case True
    then show ?thesis by (simp add: nat_digits.simps[of n] dec_val_def digit_val_digit_char)
  next
    case False
    then have "dec_val (nat_digits n) = 10 * dec_val (nat_digits (n div 10)) + digit_val (digit_char (n mod 10))"
      by (simp add: nat_digits.simps[of n] dec_val_snoc)
    also have "\<dots> = 10 * (n div 10) + n mod 10"
      using 1 False by (simp add: digit_val_digit_char)
    finally show ?thesis by simp
  qed
qed

lemma nat_digits_all_digits: "list_all is_digit (nat_digits n)"
proof (induction n rule: nat_digits.induct)
  case (1 n)
  show ?case
  proof (cases "n < 10")
    case True
    then show ?thesis by (simp add: nat_digits.simps[of n] is_digit_digit_char)
  next
    case False
    with 1 show ?thesis by (simp add: nat_digits.simps[of n] is_digit_digit_char)
  qed
qed

lemma nat_digits_nonempty: "nat_digits n \<noteq> []"
  by (subst nat_digits.simps) simp

lemma nat_digits_length: "n < 1000 \<Longrightarrow> length (nat_digits n) \<le> 3"
proof -
  assume n: "n < 1000"
  have a: "\<And>m. m < 10 \<Longrightarrow> length (nat_digits m) = 1"
    by (simp add: nat_digits.simps)
  have b: "\<And>m. m < 100 \<Longrightarrow> length (nat_digits m) \<le> 2"
  proof -
    fix m :: nat assume "m < 100"
    then have "m div 10 < 10" by simp
    then show "length (nat_digits m) \<le> 2"
      using a[of "m div 10"] a[of m] by (subst nat_digits.simps) simp
  qed
  from n have "n div 10 < 100" by simp
  then show ?thesis
    using b[of "n div 10"] a[of n] by (subst nat_digits.simps) simp
qed

lemma dec_val_Cons0: "dec_val (CHR ''0'' # s) = dec_val s"
  by (simp add: dec_val_def digit_val_def)

lemma dec_val_replicate0: "dec_val (replicate k (CHR ''0'') @ s) = dec_val s"
  by (induction k) (simp_all add: dec_val_Cons0)

lemma parseInt_digits:
  assumes "list_all is_digit s" "s \<noteq> []"
  shows "parseInt s = Some (int (dec_val s))"
proof -
  obtain c r where s: "s = c # r" using assms(2) by (cases s) auto
  have c: "is_digit c" using assms(1) s by simp
  have dw: "dropWhile is_ws s = s" using c s is_digit_not_ws by simp
  have ss: "strip_sign s = (False, s)"
    using c s is_digit_not_sign[of c] by (simp add: strip_sign_def)
  have tw: "takeWhile is_digit s = s"
    using assms(1) by (simp add: list_all_iff)
  show ?thesis
    using assms(2) by (simp add: parseInt_def dw ss tw)
qed

lemma pad3_all_digits: "list_all is_digit s \<Longrightarrow> list_all is_digit (pad3 s)"
  by (auto simp add: pad3_eq list_all_iff is_digit_def)

lemma pad3_nonempty: "pad3 s \<noteq> []"
  by (cases s) (simp_all add: pad3_eq)

lemma parseInt_pad3_nat_digits: "parseInt (pad3 (nat_digits n)) = Some (int n)"
proof -
  have "list_all is_digit (pad3 (nat_digits n))"
    by (rule pad3_all_digits) (rule nat_digits_all_digits)
  then have "parseInt (pad3 (nat_digits n)) = Some (int (dec_val (pad3 (nat_digits n))))"
    by (rule parseInt_digits) (rule pad3_nonempty)
  then show ?thesis
    by (simp add: pad3_eq dec_val_replicate0 dec_val_nat_digits)
qed

lemma is_version_parseInt: "is_version v \<Longrightarrow> parseInt v = Some (int (dec_val v))"
  by (rule parseInt_digits) (auto simp: is_version_def)

lemma is_version_pad3_nat_digits:
  assumes "n < 1000"
  shows "is_version (pad3 (nat_digits n))"
proof -
  have "length (nat_digits n) \<le> 3" using assms by (rule nat_digits_length)
  then have "length (pad3 (nat_digits n)) = 3" by (simp add: pad3_eq)
  moreover have "list_all is_digit (pad3 (nat_digits n))"
    by (rule pad3_all_digits) (rule nat_digits_all_digits)
  ultimately show ?thesis by (simp add: is_version_def)
qed

lemma dec_val_inj_aux:
  "length s = length t \<Longrightarrow> list_all is_digit s \<Longrightarrow> list_all is_digit t \<Longrightarrow>
   dec_val s = dec_val t \<Longrightarrow> s = t"
proof (induction s arbitrary: t rule: rev_induct)
  case Nil
  then show ?case by simp
next
  case (snoc x xs)
  from snoc.prems(1) obtain y ys where t: "t = ys @ [y]"
    by (cases t rule: rev_cases) auto
  have dx: "digit_val x < 10" and dy: "digit_val y < 10"
    using snoc.prems t by (simp_all add: digit_val_lt)
  have eq: "10 * dec_val xs + digit_val x = 10 * dec_val ys + digit_val y"
    using snoc.prems t by (simp add: dec_val_snoc)
  have "dec_val xs = dec_val ys" using eq dx dy by arith
  moreover have dd: "digit_val x = digit_val y" using eq dx dy by arith
  ultimately have "xs = ys"
    using snoc.IH[of ys] snoc.prems t by simp
  moreover have "is_digit x" "is_digit y" using snoc.prems t by simp_all
  then have "x = y"
    using dd by (metis digit_char_digit_val)
  ultimately show ?case using t by simp
qed

lemma dec_val_lt: "is_version v \<Longrightarrow> dec_val v < 1000"
proof -
  assume v: "is_version v"
  then obtain a b c where abc: "v = [a, b, c]"
    unfolding is_version_def by (cases v; cases "tl v"; cases "tl (tl v)") auto
  then have "digit_val a < 10" "digit_val b < 10" "digit_val c < 10"
    using v by (simp_all add: is_version_def digit_val_lt)
  then show ?thesis by (simp add: abc dec_val_def)
qed

lemma pad3_nat_digits_dec_val:
  assumes "is_version v"
  shows "pad3 (nat_digits (dec_val v)) = v"
proof (rule dec_val_inj_aux)
  have iv: "is_version (pad3 (nat_digits (dec_val v)))"
    using assms by (intro is_version_pad3_nat_digits dec_val_lt)
  show "length (pad3 (nat_digits (dec_val v))) = length v"
    using iv assms by (simp add: is_version_def)
  show "list_all is_digit (pad3 (nat_digits (dec_val v)))"
    using iv by (simp add: is_version_def)
  show "list_all is_digit v" using assms by (simp add: is_version_def)
  show "dec_val (pad3 (nat_digits (dec_val v))) = dec_val v"
    by (simp add: pad3_eq dec_val_replicate0 dec_val_nat_digits)
qed

lemma dec_val_zero: "is_version v \<Longrightarrow> dec_val v = 0 \<Longrightarrow> v = ''000''"
proof -
  assume v: "is_version v" and z: "dec_val v = 0"
  have "pad3 (nat_digits (dec_val v)) = v" using v by (rule pad3_nat_digits_dec_val)
  moreover have "pad3 (nat_digits 0) = ''000''" by code_simp
  ultimately show ?thesis by (simp add: z)
qed

lemma getVersionBefore_version:
  assumes "is_version v" "v \<noteq> ''000''"
  shows "getVersionBefore v = pad3 (nat_digits (dec_val v - 1))"
proof -
  have "dec_val v \<noteq> 0" using assms dec_val_zero by blast
  then show ?thesis
    using assms(1)
    by (simp add: getVersionBefore_def is_version_parseInt js_isNaN_number_def js_plus_def
        js_String_def nat_diff_distrib)
qed

lemma getVersionAfter_num:
  "parseInt v = Some n \<Longrightarrow> 0 \<le> n + 1 \<Longrightarrow> getVersionAfter v = pad3 (nat_digits (nat (n + 1)))"
  by (simp add: getVersionAfter_def js_isNaN_number_def js_plus_def js_String_def)

lemma getVersionBefore_num:
  "parseInt v = Some n \<Longrightarrow> 0 \<le> n - 1 \<Longrightarrow> getVersionBefore v = pad3 (nat_digits (nat (n - 1)))"
  by (simp add: getVersionBefore_def js_isNaN_number_def js_plus_def js_String_def)

lemma roundtrip:
  assumes "is_version v" "v \<noteq> ''000''"
  shows "getVersionAfter (getVersionBefore v) = v"
proof -
  have nz: "dec_val v \<noteq> 0" using assms dec_val_zero by blast
  have b: "getVersionBefore v = pad3 (nat_digits (dec_val v - 1))"
    using assms by (rule getVersionBefore_version)
  have p: "parseInt (getVersionBefore v) = Some (int (dec_val v - 1))"
    unfolding b by (rule parseInt_pad3_nat_digits)
  have "getVersionAfter (getVersionBefore v) = pad3 (nat_digits (nat (int (dec_val v - 1) + 1)))"
    using p by (rule getVersionAfter_num) simp
  also have "nat (int (dec_val v - 1) + 1) = dec_val v" using nz by simp
  finally show ?thesis using assms(1) by (simp add: pad3_nat_digits_dec_val)
qed

subsection \<open>The version resolve\<close>

lemma issue_fields [simp]:
  "tables (issue q w) = tables w" "settings (issue q w) = settings w"
  "posts_fields (issue q w) = posts_fields w"
  "defaultDatabaseVersion (issue q w) = defaultDatabaseVersion w"
  "trace (issue q w) = trace w @ [Issued q]"
  "inflight (issue q w) = inflight w @ [q]"
  by (simp_all add: issue_def)

lemma settle_fields [simp]:
  "tables (settle q w) = tables w" "settings (settle q w) = settings w"
  "posts_fields (settle q w) = posts_fields w"
  "defaultDatabaseVersion (settle q w) = defaultDatabaseVersion w"
  "trace (settle q w) = trace w @ [Settled q]"
  "inflight (settle q w) = remove1 q (inflight w)"
  by (simp_all add: settle_def)

lemma log_event_fields [simp]:
  "tables (log_event e w) = tables w" "settings (log_event e w) = settings w"
  "posts_fields (log_event e w) = posts_fields w"
  "defaultDatabaseVersion (log_event e w) = defaultDatabaseVersion w"
  "trace (log_event e w) = trace w @ [e]"
  "inflight (log_event e w) = inflight w"
  by (simp_all add: log_event_def)

lemma remove1_append_self [simp]: "remove1 q (xs @ [q]) = (if q \<in> set xs then remove1 q xs @ [q] else xs)"
  by (induction xs) auto

lemma getDatabaseVersion_exists:
  assumes "''settings'' \<in> set (tables w)"
  shows "getDatabaseVersion env w =
     (case reduce_versions env (version_rows w) initialVersion of
        Inl e \<Rightarrow> (Rejected e, after_read w)
      | Inr v \<Rightarrow> (Resolved (if v = [] then initialVersion else v), after_read w))"
  using assms
  by (simp add: getDatabaseVersion_def p_then_def knex_schema_hasTable_def knex_select_versions_def
      Let_def version_rows_def after_read_def resolve_def reject_def split: sum.splits)

lemma getDatabaseVersion_missing:
  assumes "''settings'' \<notin> set (tables w)"
  shows "getDatabaseVersion env w =
     (Rejected (JError ''Settings table does not exist''),
      settle (HasTable ''settings'') (issue (HasTable ''settings'') w))"
  using assms
  by (simp add: getDatabaseVersion_def p_then_def knex_schema_hasTable_def Let_def reject_def)

lemma reduce_versions_NaN:
  "\<exists>v \<in> set vs. js_isNaN v \<Longrightarrow>
   reduce_versions env vs memo = Inl (throwError env ''Database version is not recognised'')"
  by (induction vs arbitrary: memo) auto

lemma reduce_versions_no_NaN:
  "\<forall>v \<in> set vs. \<not> js_isNaN v \<Longrightarrow> \<exists>r. reduce_versions env vs memo = Inr r"
  by (induction vs arbitrary: memo) auto

lemma digits_numeric_string:
  assumes "list_all is_digit s" "s \<noteq> []"
  shows "is_numeric_string s"
proof -
  obtain c r where s: "s = c # r" using assms(2) by (cases s) auto
  have c: "is_digit c" using assms(1) s by simp
  have dw: "dropWhile is_ws s = s" using c s is_digit_not_ws by simp
  have "is_digit (last s)" using assms by (simp add: list_all_iff)
  then have "\<not> is_ws (hd (rev s))" using assms(2) by (simp add: hd_rev is_digit_not_ws)
  then have "dropWhile is_ws (rev s) = rev s" using assms(2) by (cases "rev s") auto
  then have tr: "trim_ws s = s" by (simp add: trim_ws_def dw)
  have ss: "strip_sign s = (False, s)"
    using c s is_digit_not_sign[of c] by (simp add: strip_sign_def)
  have tw: "takeWhile is_digit s = s" "dropWhile is_digit s = []"
    using assms(1) by (simp_all add: list_all_iff)
  have "is_decimal_literal s"
    using assms(2) by (simp add: is_decimal_literal_def tw)
  then show ?thesis by (simp add: is_numeric_string_def tr ss)
qed

lemma is_version_not_NaN: "is_version_value v \<Longrightarrow> \<not> js_isNaN v"
  by (cases v) (auto simp: is_version_value_def js_isNaN_def is_version_def intro!: digits_numeric_string)

lemma js_gt_versions:
  "is_version s \<Longrightarrow> is_version m \<Longrightarrow>
   js_gt (parseInt_value (Some s)) (parseInt m) = (dec_val m < dec_val s)"
  by (simp add: js_gt_def parseInt_value_def is_version_parseInt)

lemma dec_val_inj: "is_version s \<Longrightarrow> is_version t \<Longrightarrow> dec_val s = dec_val t \<Longrightarrow> s = t"
  by (rule dec_val_inj_aux) (simp_all add: is_version_def)

lemma reduce_versions_valid:
  assumes "list_all is_version_value vs" "is_version memo"
  shows "\<exists>r. reduce_versions env vs memo = Inr r \<and> is_version r \<and>
             (r = memo \<or> Some r \<in> set vs) \<and> dec_val memo \<le> dec_val r \<and>
             (\<forall>s. Some s \<in> set vs \<longrightarrow> dec_val s \<le> dec_val r)"
  using assms
proof (induction vs arbitrary: memo)
  case Nil
  then show ?case by simp
next
  case (Cons v vs)
  then obtain s where v: "v = Some s" and s: "is_version s"
    by (cases v) (auto simp: is_version_value_def)
  have nn: "\<not> js_isNaN v" using Cons.prems(1) by (simp add: is_version_not_NaN)
  define memo' where "memo' = (if dec_val memo < dec_val s then s else memo)"
  have step: "reduce_versions env (v # vs) memo = reduce_versions env vs memo'"
    using nn v s Cons.prems(2) by (simp add: js_gt_versions memo'_def)
  have m': "is_version memo'" using s Cons.prems(2) by (simp add: memo'_def)
  from Cons.IH[OF _ m'] Cons.prems(1)
  obtain r where r: "reduce_versions env vs memo' = Inr r" "is_version r"
      "r = memo' \<or> Some r \<in> set vs" "dec_val memo' \<le> dec_val r"
      "\<forall>s. Some s \<in> set vs \<longrightarrow> dec_val s \<le> dec_val r"
    by auto
  have "dec_val memo \<le> dec_val memo'" "dec_val s \<le> dec_val memo'"
    by (simp_all add: memo'_def)
  moreover have "memo' = memo \<or> memo' = s" by (simp add: memo'_def)
  ultimately show ?case
    using r v unfolding step by auto
qed

lemma is_version_initial: "is_version initialVersion"
  by (simp add: initialVersion_def is_version_def is_digit_def)

lemma dec_val_initial: "dec_val initialVersion = 0"
  by (simp add: initialVersion_def dec_val_def digit_val_def)

lemma is_version_nonempty: "is_version v \<Longrightarrow> v \<noteq> []"
  by (auto simp: is_version_def)

lemma resolve_valid_rows:
  assumes st: "''settings'' \<in> set (tables w)"
    and valid: "list_all is_version_value (version_rows w)"
  shows "\<exists>r. getDatabaseVersion env w = (Resolved r, after_read w) \<and> is_version r \<and>
             (if version_rows w = [] then r = ''000''
              else Some r \<in> set (version_rows w)) \<and>
             (\<forall>s. Some s \<in> set (version_rows w) \<longrightarrow> dec_val s \<le> dec_val r)"
proof -
  from reduce_versions_valid[OF valid is_version_initial, of env]
  obtain r where r: "reduce_versions env (version_rows w) initialVersion = Inr r" "is_version r"
      "r = initialVersion \<or> Some r \<in> set (version_rows w)"
      "\<forall>s. Some s \<in> set (version_rows w) \<longrightarrow> dec_val s \<le> dec_val r"
    by auto
  have g: "getDatabaseVersion env w = (Resolved r, after_read w)"
    using r(1,2) by (simp add: getDatabaseVersion_exists[OF st] is_version_nonempty)
  have mem: "Some r \<in> set (version_rows w)" if ne: "version_rows w \<noteq> []"
  proof (cases "Some r \<in> set (version_rows w)")
    case True
    then show ?thesis .
  next
    case False
    then have r0: "r = initialVersion" using r(3) by simp
    from ne obtain v where v: "v \<in> set (version_rows w)" by (cases "version_rows w") auto
    then have "is_version_value v" using valid by (simp add: list_all_iff)
    then obtain s where s: "v = Some s" "is_version s"
      by (cases v) (auto simp: is_version_value_def)
    then have "dec_val s \<le> dec_val r" using r(4) v by simp
    then have "dec_val s = dec_val initialVersion" by (simp add: r0 dec_val_initial)
    then have "s = initialVersion" using s(2) is_version_initial by (rule dec_val_inj[rotated 2])
    then show ?thesis using v s r0 by simp
  qed
  have "version_rows w = [] \<Longrightarrow> r = ''000''"
    using r(1) by (simp add: initialVersion_def)
  then show ?thesis using g r(2,4) mem by auto
qed

subsection \<open>Comparing version markers\<close>

lemma is_version_3: "is_version v \<Longrightarrow> \<exists>a b c. v = [a, b, c] \<and> is_digit a \<and> is_digit b \<and> is_digit c"
  unfolding is_version_def by (cases v; cases "tl v"; cases "tl (tl v)") auto

lemma digit_lt: "is_digit a \<Longrightarrow> is_digit b \<Longrightarrow> ((of_char a :: nat) < of_char b) = (digit_val a < digit_val b)"
  by (auto simp: is_digit_def digit_val_def)

lemma js_str_lt_versions:
  assumes "is_version a" "is_version b"
  shows "js_str_lt a b = (dec_val a < dec_val b)"
proof -
  obtain a1 a2 a3 where a: "a = [a1, a2, a3]" "is_digit a1" "is_digit a2" "is_digit a3"
    using is_version_3[OF assms(1)] by auto
  obtain b1 b2 b3 where b: "b = [b1, b2, b3]" "is_digit b1" "is_digit b2" "is_digit b3"
    using is_version_3[OF assms(2)] by auto
  have lt: "digit_val a1 < 10" "digit_val a2 < 10" "digit_val a3 < 10"
      "digit_val b1 < 10" "digit_val b2 < 10" "digit_val b3 < 10"
    using a b by (simp_all add: digit_val_lt)
  have "js_str_lt a b =
      (if digit_val a1 < digit_val b1 then True else if digit_val b1 < digit_val a1 then False
       else if digit_val a2 < digit_val b2 then True else if digit_val b2 < digit_val a2 then False
       else if digit_val a3 < digit_val b3 then True else False)"
    using a b by (simp add: digit_lt)
  also have "\<dots> = (dec_val a < dec_val b)"
    using lt by (simp add: a b dec_val_def)
  finally show ?thesis .
qed

lemma js_gt_parseInt_versions:
  "is_version a \<Longrightarrow> is_version b \<Longrightarrow> js_gt (parseInt a) (parseInt b) = (dec_val b < dec_val a)"
  by (simp add: js_gt_def is_version_parseInt)

subsection \<open>The branches of init\<close>

lemma getDatabaseVersion_frame:
  assumes "getDatabaseVersion env w = (r, w1)"
  shows "tables w1 = tables w \<and> settings w1 = settings w \<and> posts_fields w1 = posts_fields w \<and>
         defaultDatabaseVersion w1 = defaultDatabaseVersion w \<and>
         (trace w1 = trace w @ read_version_events \<or>
          trace w1 = trace w @ [Issued (HasTable ''settings''), Settled (HasTable ''settings'')])"
proof (cases "''settings'' \<in> set (tables w)")
  case True
  then have "w1 = after_read w"
    using assms by (auto simp: getDatabaseVersion_exists split: sum.splits)
  then show ?thesis by (simp add: after_read_def read_version_events_def)
next
  case False
  then show ?thesis using assms by (auto simp: getDatabaseVersion_missing)
qed

lemma getDatabaseVersion_resolved_trace:
  assumes "getDatabaseVersion env w = (Resolved r, w1)"
  shows "w1 = after_read w"
proof (cases "''settings'' \<in> set (tables w)")
  case True
  then show ?thesis using assms by (auto simp: getDatabaseVersion_exists split: sum.splits)
next
  case False
  then show ?thesis using assms by (auto simp: getDatabaseVersion_missing)
qed

lemma getDefaultDatabaseVersion_frame:
  assumes "getDefaultDatabaseVersion env w = (r, w1)"
  shows "tables w1 = tables w \<and> settings w1 = settings w \<and> posts_fields w1 = posts_fields w \<and>
         trace w1 = trace w \<and> inflight w1 = inflight w"
  using assms
  by (auto simp: getDefaultDatabaseVersion_def find_databaseVersion_def split: option.splits if_splits)

lemma getDefaultDatabaseVersion_cache:
  assumes "getDefaultDatabaseVersion env w = (Resolved v, w1)"
  shows "defaultDatabaseVersion w1 = Some v"
  using assms
  by (auto simp: getDefaultDatabaseVersion_def find_databaseVersion_def split: option.splits if_splits)

lemma init_resolved_versions:
  assumes "getDatabaseVersion env w = (Resolved cur, w1)"
    and "getDefaultDatabaseVersion env w1 = (Resolved target, w2)"
  shows "init env w =
     (if cur = target then (Resolved (), w2)
      else if js_str_lt cur target
      then p_then (migrateUp env) (\<lambda>_. p_then setDatabaseVersion (\<lambda>_. resolve ())) w2
      else if js_str_lt target cur
      then logErrorAndExit ''Your database is not compatible with this version of Ghost''
             (JStr ''You will need to create a new database'') w2
      else (Resolved (), w2))"
  using assms by (simp add: init_def p_then_else_def p_then_def resolve_def)

lemma init_rejected:
  assumes "getDatabaseVersion env w = (Rejected err, w1)"
  shows "init env w =
     (if message_truthy err \<or> err = JStr ''Settings table does not exist''
      then migrateUpFreshDb env w1
      else logErrorAndExit ''There is a problem with the database'' (message_or_self err) w1)"
  using assms by (simp add: init_def p_then_else_def)

subsection \<open>Sequences of table operations\<close>

lemma run_in_sequence_simps [simp]:
  "run_in_sequence [] = []"
  "run_in_sequence (q # qs) = Issued q # Settled q # run_in_sequence qs"
  "run_in_sequence (qs @ rs) = run_in_sequence qs @ run_in_sequence rs"
  by (simp_all add: run_in_sequence_def awaited_def)

lemma issued_simps [simp]:
  "issued [] = []"
  "issued (Issued q # evs) = q # issued evs"
  "issued (Settled q # evs) = issued evs"
  "issued (PopulateFixtures # evs) = issued evs"
  "issued (PopulateDefaults # evs) = issued evs"
  "issued (LogErrorAndExit h d # evs) = issued evs"
  "issued (evs @ evs') = issued evs @ issued evs'"
  by (simp_all add: issued_def)

lemma issued_run_in_sequence [simp]: "issued (run_in_sequence qs) = qs"
  by (induction qs) simp_all

lemma deleteTable_eq:
  "deleteTable t w =
     (Resolved (),
      settle (DropTableIfExists t)
        ((issue (DropTableIfExists t) w)\<lparr>tables := removeAll t (tables w),
            settings := (if t = ''settings'' then [] else settings w),
            posts_fields := (if t = ''posts'' then [] else posts_fields w)\<rparr>))"
  by (simp add: deleteTable_def knex_schema_dropTableIfExists_def Let_def)

lemma createTable_absent:
  "t \<notin> set (tables w) \<Longrightarrow>
   createTable env t w =
     (Resolved (),
      settle (CreateTable t)
        ((issue (CreateTable t) w)\<lparr>tables := tables w @ [t],
            settings := (if t = ''settings'' then [] else settings w),
            posts_fields := (if t = ''posts'' then schema_posts_fields env else posts_fields w)\<rparr>))"
  by (simp add: createTable_def knex_schema_createTable_def Let_def)

lemma createTable_present:
  "t \<in> set (tables w) \<Longrightarrow>
   createTable env t w =
     (Rejected (JError (''table '' @ t @ '' already exists'')),
      settle (CreateTable t) (issue (CreateTable t) w))"
  by (simp add: createTable_def knex_schema_createTable_def Let_def)

lemma sequence_Cons_Resolved:
  "task w = (Resolved x, w1) \<Longrightarrow>
   sequence (task # tasks) w =
     (case sequence tasks w1 of
        (Resolved xs, w2) \<Rightarrow> (Resolved (x # xs), w2)
      | (Rejected e, w2) \<Rightarrow> (Rejected e, w2)
      | (Exited, w2) \<Rightarrow> (Exited, w2))"
  by (simp add: p_then_def resolve_def split: prod.splits outcome.splits)

lemma sequence_append:
  "sequence (xs @ ys) w =
     (case sequence xs w of
        (Resolved rs, w1) \<Rightarrow>
          (case sequence ys w1 of
             (Resolved rs', w2) \<Rightarrow> (Resolved (rs @ rs'), w2)
           | (Rejected e, w2) \<Rightarrow> (Rejected e, w2)
           | (Exited, w2) \<Rightarrow> (Exited, w2))
      | (Rejected e, w1) \<Rightarrow> (Rejected e, w1)
      | (Exited, w1) \<Rightarrow> (Exited, w1))"
proof (induction xs arbitrary: w)
  case Nil
  then show ?case by (simp add: resolve_def split: prod.splits outcome.splits)
next
  case (Cons t ts)
  show ?case
    by (simp add: p_then_def resolve_def Cons split: prod.splits outcome.splits)
qed

lemma sequence_drops:
  "\<exists>w'. sequence (map (\<lambda>table. deleteTable table) ds) w = (Resolved (map (\<lambda>_. ()) ds), w') \<and>
        tables w' = filter (\<lambda>t. t \<notin> set ds) (tables w) \<and>
        settings w' = (if ''settings'' \<in> set ds then [] else settings w) \<and>
        defaultDatabaseVersion w' = defaultDatabaseVersion w \<and>
        trace w' = trace w @ run_in_sequence (map DropTableIfExists ds)"
proof (induction ds arbitrary: w)
  case Nil
  then show ?case by (simp add: resolve_def)
next
  case (Cons d ds)
  define w1 where "w1 = snd (deleteTable d w)"
  have d: "deleteTable d w = (Resolved (), w1)" by (simp add: w1_def deleteTable_eq)
  have f1: "tables w1 = removeAll d (tables w)"
      "settings w1 = (if d = ''settings'' then [] else settings w)"
      "defaultDatabaseVersion w1 = defaultDatabaseVersion w"
      "trace w1 = trace w @ [Issued (DropTableIfExists d), Settled (DropTableIfExists d)]"
    by (simp_all add: w1_def deleteTable_eq)
  from Cons[of w1] obtain w' where w':
      "sequence (map (\<lambda>table. deleteTable table) ds) w1 = (Resolved (map (\<lambda>_. ()) ds), w')"
      "tables w' = filter (\<lambda>t. t \<notin> set ds) (tables w1)"
      "settings w' = (if ''settings'' \<in> set ds then [] else settings w1)"
      "defaultDatabaseVersion w' = defaultDatabaseVersion w1"
      "trace w' = trace w1 @ run_in_sequence (map DropTableIfExists ds)"
    by blast
  have "sequence (map (\<lambda>table. deleteTable table) (d # ds)) w = (Resolved (map (\<lambda>_. ()) (d # ds)), w')"
    using sequence_Cons_Resolved[of "deleteTable d" w "()" w1 "map (\<lambda>table. deleteTable table) ds"] d w'(1) by simp
  moreover have "filter (\<lambda>t. t \<notin> set ds) (removeAll d xs) = filter (\<lambda>t. t \<notin> set (d # ds)) xs" for xs
    by (induction xs) auto
  ultimately show ?case using w' f1 by auto
qed

lemma sequence_creates:
  assumes "distinct cs" "set cs \<inter> set (tables w) = {}"
  shows "\<exists>w'. sequence (map (\<lambda>table. createTable env table) cs) w = (Resolved (map (\<lambda>_. ()) cs), w') \<and>
        tables w' = tables w @ cs \<and>
        settings w' = (if ''settings'' \<in> set cs then [] else settings w) \<and>
        defaultDatabaseVersion w' = defaultDatabaseVersion w \<and>
        trace w' = trace w @ run_in_sequence (map CreateTable cs)"
  using assms
proof (induction cs arbitrary: w)
  case Nil
  then show ?case by (simp add: resolve_def)
next
  case (Cons c cs)
  have c: "c \<notin> set (tables w)" using Cons.prems by auto
  define w1 where "w1 = snd (createTable env c w)"
  have d: "createTable env c w = (Resolved (), w1)" by (simp add: w1_def createTable_absent[OF c])
  have f1: "tables w1 = tables w @ [c]"
      "settings w1 = (if c = ''settings'' then [] else settings w)"
      "defaultDatabaseVersion w1 = defaultDatabaseVersion w"
      "trace w1 = trace w @ [Issued (CreateTable c), Settled (CreateTable c)]"
    by (simp_all add: w1_def createTable_absent[OF c])
  have "distinct cs" "set cs \<inter> set (tables w1) = {}" using Cons.prems by (auto simp: f1)
  from Cons.IH[OF this] obtain w' where w':
      "sequence (map (\<lambda>table. createTable env table) cs) w1 = (Resolved (map (\<lambda>_. ()) cs), w')"
      "tables w' = tables w1 @ cs"
      "settings w' = (if ''settings'' \<in> set cs then [] else settings w1)"
      "defaultDatabaseVersion w' = defaultDatabaseVersion w1"
      "trace w' = trace w1 @ run_in_sequence (map CreateTable cs)"
    by blast
  have "sequence (map (\<lambda>table. createTable env table) (c # cs)) w = (Resolved (map (\<lambda>_. ()) (c # cs)), w')"
    using sequence_Cons_Resolved[of "createTable env c" w "()" w1 "map (\<lambda>table. createTable env table) cs"] d w'(1) by simp
  then show ?case using w' f1 by auto
qed

subsection \<open>Enumeration, repair and table diff\<close>

lemma concat_singletons: "concat (map (\<lambda>entry. [entry]) xs) = xs"
  by (induction xs) simp_all

lemma knex_raw_catalogue_eq:
  "knex_raw_catalogue q w = (Resolved (tables w), settle q (issue q w))"
  by (simp add: knex_raw_catalogue_def Let_def)

lemma getTables_resolved:
  assumes "getTables env w = (Resolved old, w1)"
  shows "\<exists>q. q \<in> {SqliteMaster, ShowTables, PgTables} \<and> w1 = settle q (issue q w) \<and>
             old = (if client env = ''sqlite3''
                    then filter (\<lambda>name. name \<noteq> ''sqlite_sequence'') (tables w) else tables w)"
  using assms
  by (auto simp: getTables_def getTablesFromSqlite3_def getTablesFromMySQL_def getTablesFromPgSQL_def
      p_then_def knex_raw_catalogue_eq resolve_def reject_def concat_singletons split: if_splits)

lemma check_entries_frame:
  "check_entries es w = (ps, w') \<Longrightarrow>
   tables w' = tables w \<and> settings w' = settings w \<and> posts_fields w' = posts_fields w \<and>
   defaultDatabaseVersion w' = defaultDatabaseVersion w \<and>
   trace w' = trace w @ map (\<lambda>entry. Issued (AlterPostsModify (fst entry))) (filter needs_widening es) \<and>
   inflight w' = inflight w @ map (\<lambda>entry. AlterPostsModify (fst entry)) (filter needs_widening es)"
proof (induction es arbitrary: w ps w')
  case Nil
  then show ?case by simp
next
  case (Cons e es)
  show ?case
  proof (cases "needs_widening e")
    case True
    obtain ps1 w2 where r: "check_entries es (issue (AlterPostsModify (fst e)) w) = (ps1, w2)"
      by (cases "check_entries es (issue (AlterPostsModify (fst e)) w)") auto
    with Cons.prems True have "w' = w2" by (simp add: needs_widening_def Let_def)
    with Cons.IH[OF r] True show ?thesis by simp
  next
    case False
    obtain ps1 w2 where r: "check_entries es w = (ps1, w2)"
      by (cases "check_entries es w") auto
    with Cons.prems False have "w' = w2" by (simp add: needs_widening_def Let_def)
    with Cons.IH[OF r] False show ?thesis by simp
  qed
qed

lemma checkMySQLPostTable_present:
  assumes "''posts'' \<in> set (tables w)"
  shows "\<exists>ps w'. checkMySQLPostTable w = (Resolved ps, w') \<and>
     tables w' = tables w \<and> settings w' = settings w \<and>
     defaultDatabaseVersion w' = defaultDatabaseVersion w \<and>
     trace w' = trace w @ awaited ShowPostFields @
        map (\<lambda>entry. Issued (AlterPostsModify (fst entry))) (filter needs_widening (listed_post_fields w))"
proof -
  define w1 where "w1 = settle ShowPostFields (issue ShowPostFields w)"
  obtain ps w' where r: "check_entries (listed_post_fields w) w1 = (ps, w')"
    by (cases "check_entries (listed_post_fields w) w1") auto
  have "checkMySQLPostTable w = (Resolved ps, w')"
    using assms r
    by (simp add: checkMySQLPostTable_def p_then_def knex_raw_show_post_fields_def Let_def
        listed_post_fields_def w1_def)
  moreover have "trace w1 = trace w @ awaited ShowPostFields" "tables w1 = tables w"
      "settings w1 = settings w" "defaultDatabaseVersion w1 = defaultDatabaseVersion w"
    by (simp_all add: w1_def awaited_def)
  ultimately show ?thesis using check_entries_frame[OF r] by simp
qed

lemma checkMySQLPostTable_absent:
  assumes "''posts'' \<notin> set (tables w)"
  shows "\<exists>e w'. checkMySQLPostTable w = (Rejected e, w')"
  using assms
  by (simp add: checkMySQLPostTable_def p_then_def knex_raw_show_post_fields_def Let_def)

lemma migrateUp_tail:
  "(let deleteCommands = getDeleteCommands old (schemaTables env);
        addCommands = getAddCommands env old (schemaTables env);
        commands = [];
        commands = (case deleteCommands of None \<Rightarrow> commands
                    | Some cs \<Rightarrow> if cs \<noteq> [] then commands @ cs else commands);
        commands = (case addCommands of None \<Rightarrow> commands
                    | Some cs \<Rightarrow> if cs \<noteq> [] then commands @ cs else commands)
    in if commands \<noteq> [] then p_then (sequence commands) (\<lambda>_. resolve ())
       else resolve ()) =
   p_then (sequence (diff_commands env old)) (\<lambda>_. resolve ())"
  by (rule ext)
     (auto simp: getDeleteCommands_def getAddCommands_def diff_commands_def Let_def p_then_def resolve_def)

lemma migrateUp_after_enumeration:
  assumes "getTables env w = (Resolved old, w1)"
  shows "migrateUp env w =
     p_then (if old \<noteq> [] \<and> client env = ''mysql''
             then p_then checkMySQLPostTable (\<lambda>_. resolve old) else resolve old)
       (\<lambda>old. p_then (sequence (diff_commands env old)) (\<lambda>_. resolve ())) w1"
  unfolding migrateUp_def migrateUp_tail
  using assms by (simp add: p_then_def)

lemma sequence_diff_commands:
  assumes d: "distinct (schemaTables env)"
    and e: "set (difference (schemaTables env) old) \<inter> set (tables w) = {}"
  shows "\<exists>rs w'. sequence (diff_commands env old) w = (Resolved rs, w') \<and>
        tables w' = filter (\<lambda>t. t \<notin> set (difference old (schemaTables env))) (tables w) @
                    difference (schemaTables env) old \<and>
        settings w' = (if ''settings'' \<in> set (difference (schemaTables env) old) \<or>
                          ''settings'' \<in> set (difference old (schemaTables env)) then []
                       else settings w) \<and>
        defaultDatabaseVersion w' = defaultDatabaseVersion w \<and>
        trace w' = trace w @ run_in_sequence
           (map DropTableIfExists (difference old (schemaTables env)) @
            map CreateTable (difference (schemaTables env) old))"
proof -
  let ?ds = "difference old (schemaTables env)" and ?cs = "difference (schemaTables env) old"
  from sequence_drops[of ?ds w] obtain w1 where w1:
      "sequence (map (\<lambda>table. deleteTable table) ?ds) w = (Resolved (map (\<lambda>_. ()) ?ds), w1)"
      "tables w1 = filter (\<lambda>t. t \<notin> set ?ds) (tables w)"
      "settings w1 = (if ''settings'' \<in> set ?ds then [] else settings w)"
      "defaultDatabaseVersion w1 = defaultDatabaseVersion w"
      "trace w1 = trace w @ run_in_sequence (map DropTableIfExists ?ds)"
    by blast
  have "distinct ?cs" using d by (simp add: difference_def)
  moreover have "set ?cs \<inter> set (tables w1) = {}" using e by (auto simp: w1(2))
  ultimately obtain w2 where w2:
      "sequence (map (\<lambda>table. createTable env table) ?cs) w1 = (Resolved (map (\<lambda>_. ()) ?cs), w2)"
      "tables w2 = tables w1 @ ?cs"
      "settings w2 = (if ''settings'' \<in> set ?cs then [] else settings w1)"
      "defaultDatabaseVersion w2 = defaultDatabaseVersion w1"
      "trace w2 = trace w1 @ run_in_sequence (map CreateTable ?cs)"
    using sequence_creates[of ?cs w1 env] by blast
  have "sequence (diff_commands env old) w = (Resolved (map (\<lambda>_. ()) ?ds @ map (\<lambda>_. ()) ?cs), w2)"
    by (simp add: diff_commands_def sequence_append w1(1) w2(1))
  then show ?thesis using w1 w2 by auto
qed

lemma count_list_filter_distinct:
  "distinct xs \<Longrightarrow> count_list (filter P xs) t = (if t \<in> set xs \<and> P t then 1 else 0)"
  by (induction xs) auto

lemma filter_table_event_run [simp]:
  "list_all is_table_op qs \<Longrightarrow> filter is_table_event (run_in_sequence qs) = run_in_sequence qs"
  by (induction qs) simp_all

lemma filter_table_event_alters [simp]:
  "filter is_table_event (map (\<lambda>entry. Issued (AlterPostsModify (fst entry))) es) = []"
  by (induction es) simp_all

lemma table_ops_diff:
  "list_all is_table_op (map DropTableIfExists ds @ map CreateTable cs)"
  by (simp add: list_all_iff) auto

lemma getTables_distinct:
  assumes "getTables env w = (Resolved old, w1)" "distinct (tables w)"
  shows "distinct old"
  using getTables_resolved[OF assms(1)] assms(2) by auto

lemma getTables_adds_fresh:
  assumes g: "getTables env w = (Resolved old, w1)"
    and sq: "''sqlite_sequence'' \<notin> set (schemaTables env)"
  shows "set (difference (schemaTables env) old) \<inter> set (tables w) = {}"
  using getTables_resolved[OF g] sq by (auto simp: difference_def split: if_splits)

lemma migrateUp_diff_when_repair_succeeds:
  assumes g: "getTables env w = (Resolved oldTables, w1)"
    and dl: "distinct (tables w)"
    and dr: "distinct (schemaTables env)"
    and sq: "''sqlite_sequence'' \<notin> set (schemaTables env)"
    and posts: "client env = ''mysql'' \<and> oldTables \<noteq> [] \<longrightarrow> ''posts'' \<in> set (tables w)"
  shows "\<exists>w' ds cs.
     migrateUp env w = (Resolved (), w') \<and>
     filter is_table_event (drop (length (trace w)) (trace w')) =
       run_in_sequence (map DropTableIfExists ds @ map CreateTable cs) \<and>
     (\<forall>t. count_list ds t = (if t \<in> set oldTables \<and> t \<notin> set (schemaTables env) then 1 else 0)) \<and>
     (\<forall>t. count_list cs t = (if t \<in> set (schemaTables env) \<and> t \<notin> set oldTables then 1 else 0))"
proof -
  let ?ds = "difference oldTables (schemaTables env)" and ?cs = "difference (schemaTables env) oldTables"
  from getTables_resolved[OF g] obtain q where q: "q \<in> {SqliteMaster, ShowTables, PgTables}"
      "w1 = settle q (issue q w)"
      "oldTables = (if client env = ''sqlite3''
                    then filter (\<lambda>name. name \<noteq> ''sqlite_sequence'') (tables w) else tables w)"
    by blast
  have f1: "tables w1 = tables w" "trace w1 = trace w @ awaited q" by (simp_all add: q(2) awaited_def)
  have nq: "\<not> is_table_op q" using q(1) by auto
  \<comment> \<open>the repair step\<close>
  have "\<exists>w2 pre. (if oldTables \<noteq> [] \<and> client env = ''mysql''
             then p_then checkMySQLPostTable (\<lambda>_. resolve oldTables) else resolve oldTables) w1
          = (Resolved oldTables, w2) \<and> tables w2 = tables w \<and>
          trace w2 = trace w @ pre \<and> filter is_table_event pre = []"
  proof (cases "oldTables \<noteq> [] \<and> client env = ''mysql''")
    case True
    then have "''posts'' \<in> set (tables w1)" using posts f1 by simp
    from checkMySQLPostTable_present[OF this] obtain ps w2 where
      "checkMySQLPostTable w1 = (Resolved ps, w2)" "tables w2 = tables w1"
      "trace w2 = trace w1 @ awaited ShowPostFields @
        map (\<lambda>entry. Issued (AlterPostsModify (fst entry))) (filter needs_widening (listed_post_fields w1))"
      by blast
    then show ?thesis using True f1 nq
      by (intro exI[of _ w2] exI[of _ "awaited q @ awaited ShowPostFields @
        map (\<lambda>entry. Issued (AlterPostsModify (fst entry))) (filter needs_widening (listed_post_fields w1))"])
         (simp add: p_then_def resolve_def awaited_def)
  next
    case False
    then show ?thesis using f1 nq
      by (intro exI[of _ w1] exI[of _ "awaited q"]) (auto simp: resolve_def awaited_def)
  qed
  then obtain w2 pre where w2: "(if oldTables \<noteq> [] \<and> client env = ''mysql''
             then p_then checkMySQLPostTable (\<lambda>_. resolve oldTables) else resolve oldTables) w1
          = (Resolved oldTables, w2)" "tables w2 = tables w"
          "trace w2 = trace w @ pre" "filter is_table_event pre = []"
    by blast
  have "set ?cs \<inter> set (tables w2) = {}"
    using getTables_adds_fresh[OF g sq] w2(2) by simp
  from sequence_diff_commands[OF dr this] obtain rs w3 where w3:
      "sequence (diff_commands env oldTables) w2 = (Resolved rs, w3)"
      "trace w3 = trace w2 @ run_in_sequence (map DropTableIfExists ?ds @ map CreateTable ?cs)"
    by blast
  have m: "migrateUp env w = (Resolved (), w3)"
    using w2(1) w3(1) by (simp add: migrateUp_after_enumeration[OF g] p_then_def resolve_def)
  have tr: "drop (length (trace w)) (trace w3) =
      pre @ run_in_sequence (map DropTableIfExists ?ds @ map CreateTable ?cs)"
    by (simp add: w3(2) w2(3))
  have ft: "filter is_table_event (drop (length (trace w)) (trace w3)) =
      run_in_sequence (map DropTableIfExists ?ds @ map CreateTable ?cs)"
    unfolding tr using w2(4) filter_table_event_run[OF table_ops_diff[of ?ds ?cs]] by simp
  have dold: "distinct oldTables" using g dl by (rule getTables_distinct)
  have c1: "\<forall>t. count_list ?ds t = (if t \<in> set oldTables \<and> t \<notin> set (schemaTables env) then 1 else 0)"
    using dold by (simp add: difference_def count_list_filter_distinct)
  have c2: "\<forall>t. count_list ?cs t = (if t \<in> set (schemaTables env) \<and> t \<notin> set oldTables then 1 else 0)"
    using dr by (simp add: difference_def count_list_filter_distinct)
  show ?thesis using m ft c1 c2 by blast
qed

subsection \<open>Persisting the version\<close>

lemma setDatabaseVersion_present:
  assumes "''settings'' \<in> set (tables w)"
  shows "setDatabaseVersion w =
     (Resolved (length (filter (\<lambda>row. fst row = ''databaseVersion'') (settings w))),
      settle (UpdateVersion (defaultDatabaseVersion w))
        ((issue (UpdateVersion (defaultDatabaseVersion w)) w)
           \<lparr>settings := map (\<lambda>row. if fst row = ''databaseVersion''
                                    then (fst row, defaultDatabaseVersion w) else row) (settings w)\<rparr>))"
  using assms by (simp add: setDatabaseVersion_def knex_update_version_def Let_def)

lemma setDatabaseVersion_absent:
  assumes "''settings'' \<notin> set (tables w)"
  shows "\<exists>e w'. setDatabaseVersion w = (Rejected e, w')"
  using assms by (simp add: setDatabaseVersion_def knex_update_version_def Let_def)

lemma set_then_get:
  assumes st: "''settings'' \<in> set (tables w)"
    and row: "has_databaseVersion_row w"
    and v: "is_version v"
    and cache: "defaultDatabaseVersion w = Some v"
    and legacy: "legacy_at_most w v"
  shows "\<exists>n w1. setDatabaseVersion w = (Resolved n, w1) \<and>
                fst (getDatabaseVersion env w1) = Resolved v"
proof -
  define w1 where "w1 = snd (setDatabaseVersion w)"
  have s: "setDatabaseVersion w =
      (Resolved (length (filter (\<lambda>row. fst row = ''databaseVersion'') (settings w))), w1)"
    by (simp add: w1_def setDatabaseVersion_present[OF st])
  have t1: "tables w1 = tables w"
    and s1: "settings w1 = map (\<lambda>row. if fst row = ''databaseVersion'' then (fst row, Some v) else row) (settings w)"
    by (simp_all add: w1_def setDatabaseVersion_present[OF st] cache)
  have rows: "\<forall>x \<in> set (version_rows w1). x = Some v \<or>
      (\<exists>s. x = Some s \<and> is_version s \<and> dec_val s \<le> dec_val v)"
  proof
    fix x assume "x \<in> set (version_rows w1)"
    then obtain rw where rw: "rw \<in> set (settings w)"
        "is_version_key (fst (if fst rw = ''databaseVersion'' then (fst rw, Some v) else rw))"
        "x = snd (if fst rw = ''databaseVersion'' then (fst rw, Some v) else rw)"
      unfolding version_rows_def s1 by auto
    show "x = Some v \<or> (\<exists>s. x = Some s \<and> is_version s \<and> dec_val s \<le> dec_val v)"
    proof (cases "fst rw = ''databaseVersion''")
      case True
      then show ?thesis using rw(3) by simp
    next
      case False
      then have "fst rw = ''currentVersion''" using rw(2) unfolding is_version_key_def by simp
      then have "case snd rw of None \<Rightarrow> False | Some s \<Rightarrow> is_version s \<and> dec_val s \<le> dec_val v"
        using legacy rw(1) unfolding legacy_at_most_def list_all_iff by blast
      then show ?thesis using rw(3) False by (cases "snd rw") simp_all
    qed
  qed
  then have valid: "list_all is_version_value (version_rows w1)"
    using v unfolding list_all_iff is_version_value_def by fastforce
  have mem: "Some v \<in> set (version_rows w1)"
  proof -
    from row obtain rw where rw: "rw \<in> set (settings w)" "fst rw = ''databaseVersion''"
      unfolding has_databaseVersion_row_def by auto
    let ?rw = "if fst rw = ''databaseVersion'' then (fst rw, Some v) else rw"
    have "?rw \<in> set (settings w1)" unfolding s1 set_map using rw(1) by (rule imageI)
    moreover have "is_version_key (fst ?rw)" "snd ?rw = Some v"
      using rw(2) unfolding is_version_key_def by simp_all
    ultimately show ?thesis unfolding version_rows_def by force
  qed
  from resolve_valid_rows[OF _ valid, of env] st t1
  obtain r where r: "getDatabaseVersion env w1 = (Resolved r, after_read w1)" "is_version r"
      "(if version_rows w1 = [] then r = ''000'' else Some r \<in> set (version_rows w1))"
      "\<forall>s. Some s \<in> set (version_rows w1) \<longrightarrow> dec_val s \<le> dec_val r"
    by auto
  have "Some r \<in> set (version_rows w1)" using r(3) mem by (auto split: if_splits)
  then have "dec_val r \<le> dec_val v" using rows by auto
  moreover have "dec_val v \<le> dec_val r" using r(4) mem by simp
  ultimately have "r = v" using r(2) v by (intro dec_val_inj) simp_all
  then show ?thesis using s r(1) by simp
qed

lemma sequence_creates_success:
  "sequence (map (\<lambda>table. createTable env table) cs) w = (Resolved rs, w') \<Longrightarrow>
   tables w' = tables w @ cs \<and>
   settings w' = (if ''settings'' \<in> set cs then [] else settings w) \<and>
   defaultDatabaseVersion w' = defaultDatabaseVersion w"
proof (induction cs arbitrary: w rs)
  case Nil
  then show ?case by (simp add: resolve_def)
next
  case (Cons c cs)
  show ?case
  proof (cases "c \<in> set (tables w)")
    case True
    then show ?thesis using Cons.prems
      by (simp add: createTable_present p_then_def)
  next
    case False
    define w1 where "w1 = snd (createTable env c w)"
    have d: "createTable env c w = (Resolved (), w1)" by (simp add: w1_def createTable_absent[OF False])
    have f1: "tables w1 = tables w @ [c]"
        "settings w1 = (if c = ''settings'' then [] else settings w)"
        "defaultDatabaseVersion w1 = defaultDatabaseVersion w"
      by (simp_all add: w1_def createTable_absent[OF False])
    from Cons.prems obtain rs' where "sequence (map (\<lambda>table. createTable env table) cs) w1 = (Resolved rs', w')"
      using sequence_Cons_Resolved[of "createTable env c" w "()" w1 "map (\<lambda>table. createTable env table) cs"] d
      by (auto split: prod.splits outcome.splits)
    from Cons.IH[OF this] f1 show ?thesis by auto
  qed
qed

lemma checkMySQLPostTable_frame:
  assumes "checkMySQLPostTable w = (r, w')"
  shows "tables w' = tables w \<and> settings w' = settings w \<and>
         defaultDatabaseVersion w' = defaultDatabaseVersion w"
proof (cases "''posts'' \<in> set (tables w)")
  case True
  from checkMySQLPostTable_present[OF this] assms show ?thesis by auto
next
  case False
  then show ?thesis using assms
    by (auto simp: checkMySQLPostTable_def p_then_def knex_raw_show_post_fields_def Let_def)
qed

lemma migrateUp_success_frame:
  assumes m: "migrateUp env w = (Resolved u, w')"
    and st: "''settings'' \<in> set (tables w)" "''settings'' \<in> set (tables w')"
  shows "settings w' = settings w \<and> defaultDatabaseVersion w' = defaultDatabaseVersion w"
proof -
  obtain r0 w1 where g0: "getTables env w = (r0, w1)" by (cases "getTables env w") auto
  obtain old where g: "getTables env w = (Resolved old, w1)"
    using m g0 by (cases r0) (auto simp: migrateUp_def p_then_def)
  from getTables_resolved[OF g] obtain q where q: "w1 = settle q (issue q w)"
      "old = (if client env = ''sqlite3''
              then filter (\<lambda>name. name \<noteq> ''sqlite_sequence'') (tables w) else tables w)"
    by blast
  have f1: "tables w1 = tables w" "settings w1 = settings w"
      "defaultDatabaseVersion w1 = defaultDatabaseVersion w"
    by (simp_all add: q(1))
  have so: "''settings'' \<in> set old" using st(1) q(2) by auto
  let ?repair = "if old \<noteq> [] \<and> client env = ''mysql''
             then p_then checkMySQLPostTable (\<lambda>_. resolve old) else resolve old"
  obtain r2 w2 where rp: "?repair w1 = (r2, w2)" by (cases "?repair w1") auto
  have m2: "migrateUp env w = p_then ?repair
       (\<lambda>old. p_then (sequence (diff_commands env old)) (\<lambda>_. resolve ())) w1"
    by (rule migrateUp_after_enumeration[OF g])
  have r2: "r2 = Resolved old"
    using m rp unfolding m2
    by (cases r2) (auto simp: p_then_def resolve_def split: if_splits prod.splits outcome.splits)
  have f2: "tables w2 = tables w1 \<and> settings w2 = settings w1 \<and>
      defaultDatabaseVersion w2 = defaultDatabaseVersion w1"
  proof (cases "old \<noteq> [] \<and> client env = ''mysql''")
    case True
    obtain r3 w3 where c: "checkMySQLPostTable w1 = (r3, w3)" by (cases "checkMySQLPostTable w1") auto
    then have "w2 = w3" using rp True by (cases r3) (auto simp: p_then_def resolve_def)
    then show ?thesis using checkMySQLPostTable_frame[OF c] by simp
  next
    case False
    then show ?thesis using rp by (auto simp: resolve_def)
  qed
  obtain rs where sq: "sequence (diff_commands env old) w2 = (Resolved rs, w')"
    using m rp r2 unfolding m2
    by (auto simp: p_then_def resolve_def split: prod.splits outcome.splits)
  let ?ds = "difference old (schemaTables env)" and ?cs = "difference (schemaTables env) old"
  from sequence_drops[of ?ds w2] obtain w3 where w3:
      "sequence (map (\<lambda>table. deleteTable table) ?ds) w2 = (Resolved (map (\<lambda>_. ()) ?ds), w3)"
      "tables w3 = filter (\<lambda>t. t \<notin> set ?ds) (tables w2)"
      "settings w3 = (if ''settings'' \<in> set ?ds then [] else settings w2)"
      "defaultDatabaseVersion w3 = defaultDatabaseVersion w2"
    by blast
  obtain rs' where cr: "sequence (map (\<lambda>table. createTable env table) ?cs) w3 = (Resolved rs', w')"
    using sq by (auto simp: diff_commands_def sequence_append w3(1) split: prod.splits outcome.splits)
  from sequence_creates_success[OF cr]
  have w': "tables w' = tables w3 @ ?cs"
      "settings w' = (if ''settings'' \<in> set ?cs then [] else settings w3)"
      "defaultDatabaseVersion w' = defaultDatabaseVersion w3"
    by simp_all
  have ncs: "''settings'' \<notin> set ?cs" using so by (simp add: difference_def)
  then have "''settings'' \<in> set (tables w3)" using st(2) w'(1) by simp
  then have nds: "''settings'' \<notin> set ?ds" by (simp add: w3(2))
  show ?thesis using w' w3 f2 f1 ncs nds by simp
qed

lemma getDatabaseVersion_resolved_table:
  assumes "getDatabaseVersion env w = (Resolved r, w1)"
  shows "''settings'' \<in> set (tables w)"
  using assms by (cases "''settings'' \<in> set (tables w)") (auto simp: getDatabaseVersion_missing)

lemma init_upgrade_persists:
  assumes cur: "getDatabaseVersion env w = (Resolved cur, w1)"
    and tgt: "getDefaultDatabaseVersion env w1 = (Resolved target, w2)"
    and vt: "is_version target"
    and valid: "list_all is_version_value (version_rows w)"
    and row: "has_databaseVersion_row w"
    and lt: "js_str_lt cur target"
    and succ: "init env w = (Resolved u, w')"
  shows "fst (getDatabaseVersion env w') = Resolved target"
proof -
  have st: "''settings'' \<in> set (tables w)" using cur by (rule getDatabaseVersion_resolved_table)
  from resolve_valid_rows[OF st valid, of env] cur
  have vc: "is_version cur" and le: "\<forall>s. Some s \<in> set (version_rows w) \<longrightarrow> dec_val s \<le> dec_val cur"
    by auto
  have dlt: "dec_val cur < dec_val target" using lt vc vt by (simp add: js_str_lt_versions)
  then have ne: "cur \<noteq> target" by auto
  have i: "init env w = p_then (migrateUp env) (\<lambda>_. p_then setDatabaseVersion (\<lambda>_. resolve ())) w2"
    using init_resolved_versions[OF cur tgt] ne lt by simp
  have w1: "w1 = after_read w" using cur by (rule getDatabaseVersion_resolved_trace)
  have f2: "tables w2 = tables w" "settings w2 = settings w" "defaultDatabaseVersion w2 = Some target"
    using getDefaultDatabaseVersion_frame[OF tgt] getDefaultDatabaseVersion_cache[OF tgt]
    by (simp_all add: w1 after_read_def)
  obtain r3 w3 where m0: "migrateUp env w2 = (r3, w3)" by (cases "migrateUp env w2") auto
  have m: "migrateUp env w2 = (Resolved (), w3)"
    using succ m0 unfolding i by (cases r3) (auto simp: p_then_def)
  obtain r4 w4 where s0: "setDatabaseVersion w3 = (r4, w4)" by (cases "setDatabaseVersion w3") auto
  have s: "\<exists>n. r4 = Resolved n" and w4: "w4 = w'"
    using succ m s0 unfolding i by (cases r4; auto simp: p_then_def resolve_def)+
  have st3: "''settings'' \<in> set (tables w3)"
    using setDatabaseVersion_absent[of w3] s s0 by (cases "''settings'' \<in> set (tables w3)") auto
  have f3: "settings w3 = settings w" "defaultDatabaseVersion w3 = Some target"
    using migrateUp_success_frame[OF m _ st3] st f2 by simp_all
  have row3: "has_databaseVersion_row w3" using row by (simp add: has_databaseVersion_row_def f3)
  have leg: "legacy_at_most w3 target"
    unfolding legacy_at_most_def list_all_iff f3
  proof (intro ballI impI)
    fix rw assume rw: "rw \<in> set (settings w)" "fst rw = ''currentVersion''"
    then have "snd rw \<in> set (version_rows w)"
      by (auto simp: version_rows_def is_version_key_def intro!: image_eqI[of _ snd rw])
    then have "is_version_value (snd rw)" and "\<forall>s. snd rw = Some s \<longrightarrow> dec_val s \<le> dec_val cur"
      using valid le by (auto simp: list_all_iff)
    then show "case snd rw of None \<Rightarrow> False | Some s \<Rightarrow> is_version s \<and> dec_val s \<le> dec_val target"
      using dlt by (cases "snd rw") (auto simp: is_version_value_def)
  qed
  from set_then_get[OF st3 row3 vt f3(2) leg, of env] s0 w4 show ?thesis by auto
qed

subsection \<open>The boundary of the version arithmetic\<close>

lemma boundary_version_000:
  "getVersionBefore ''000'' = ''0-1'' \<and> getVersionAfter (getVersionBefore ''000'') = ''001''"
  by code_simp

lemma getVersionAfter_NaN: "parseInt v = None \<Longrightarrow> getVersionAfter v = ''001''"
proof -
  assume "parseInt v = None"
  then have "getVersionAfter v = pad3 (nat_digits 1)"
    by (simp add: getVersionAfter_def js_isNaN_number_def js_plus_def js_String_def
        initialVersion_def is_version_parseInt[of "''000''"] is_version_def is_digit_def dec_val_def digit_val_def)
  also have "\<dots> = ''001''" by code_simp
  finally show ?thesis .
qed

subsection \<open>A marker that is not numeric\<close>

lemma non_numeric_marker_rejected:
  assumes "''settings'' \<in> set (tables w)"
    and "list_ex js_isNaN (version_rows w)"
  shows "fst (getDatabaseVersion env w) =
           Rejected (throwError env ''Database version is not recognised'') \<and>
         trace (snd (getDatabaseVersion env w)) = trace w @ read_version_events \<and>
         settings (snd (getDatabaseVersion env w)) = settings w"
proof -
  have "\<exists>v \<in> set (version_rows w). js_isNaN v" using assms(2) by (simp add: list_ex_iff)
  then have "reduce_versions env (version_rows w) initialVersion =
      Inl (throwError env ''Database version is not recognised'')"
    by (rule reduce_versions_NaN)
  then have "getDatabaseVersion env w =
      (Rejected (throwError env ''Database version is not recognised''), after_read w)"
    by (simp add: getDatabaseVersion_exists[OF assms(1)])
  then show ?thesis by (simp add: after_read_def read_version_events_def)
qed

subsection \<open>Failure of the enumeration or of the repair query\<close>

lemma getTables_supported:
  assumes "supported_client env"
  shows "\<exists>q. q \<in> {SqliteMaster, ShowTables, PgTables} \<and>
             getTables env w = (Resolved (live_tables env w), settle q (issue q w))"
  using assms
  by (auto simp: supported_client_def getTables_def getTablesFromSqlite3_def getTablesFromMySQL_def
      getTablesFromPgSQL_def p_then_def knex_raw_catalogue_eq resolve_def concat_singletons
      live_tables_def)

lemma migrateUp_unsupported:
  assumes "\<not> supported_client env"
  shows "migrateUp env w = (Rejected (JStr (''No support for database client '' @ client env)), w)"
  using assms
  by (simp add: supported_client_def migrateUp_def getTables_def p_then_def reject_def)

lemma checkMySQLPostTable_absent_eq:
  assumes "''posts'' \<notin> set (tables w)"
  shows "checkMySQLPostTable w =
     (Rejected (JError ''table posts does not exist''), settle ShowPostFields (issue ShowPostFields w))"
  using assms
  by (simp add: checkMySQLPostTable_def p_then_def knex_raw_show_post_fields_def Let_def)

lemma migrateUp_repair_fails:
  assumes sc: "supported_client env" and rf: "repair_query_fails env w"
  shows "\<exists>e w'. migrateUp env w = (Rejected e, w') \<and>
                filter is_table_event (drop (length (trace w)) (trace w')) = []"
proof -
  from getTables_supported[OF sc, of w] obtain q where q: "q \<in> {SqliteMaster, ShowTables, PgTables}"
      "getTables env w = (Resolved (live_tables env w), settle q (issue q w))"
    by blast
  let ?w1 = "settle q (issue q w)"
  have np: "''posts'' \<notin> set (tables ?w1)" using rf by (simp add: repair_query_fails_def)
  have c: "live_tables env w \<noteq> [] \<and> client env = ''mysql''"
    using rf by (simp add: repair_query_fails_def)
  have m: "migrateUp env w =
      (Rejected (JError ''table posts does not exist''),
       settle ShowPostFields (issue ShowPostFields ?w1))"
    using c by (simp add: migrateUp_after_enumeration[OF q(2)] p_then_def
        checkMySQLPostTable_absent_eq[OF np])
  have nq: "\<not> is_table_op q" using q(1) by auto
  show ?thesis unfolding m using nq by simp
qed


section \<open>The claims\<close>

subsection \<open>C1: which failures of the version resolve lead to the fresh-install bootstrap\<close>

text \<open>
  Claim C1: \<^verbatim>\<open>init\<close> is to take the fresh-install bootstrap exactly when resolving the
  current version fails because the settings table is missing, and to report every other
  failure of that resolve to the error sink. The code does not: the test
  \<^verbatim>\<open>err.message || err === 'Settings table does not exist'\<close> holds for every error object
  with a non-empty message. On a PostgreSQL database whose settings table exists and whose
  marker is \<^verbatim>\<open>abc\<close>, the resolve is rejected with \<^verbatim>\<open>Database version is not recognised\<close>,
  \<^verbatim>\<open>init\<close> continues as \<^verbatim>\<open>migrateUpFreshDb\<close> and sends \<^verbatim>\<open>CREATE TABLE posts\<close>, and the error
  sink is never called.
\<close>

theorem init_unrecognised_version_bootstraps:
  "fst (getDatabaseVersion (example_env ''pg'') unrecognised_world) =
     Rejected (JError ''Database version is not recognised'') \<and>
   init (example_env ''pg'') unrecognised_world =
     migrateUpFreshDb (example_env ''pg'') (snd (getDatabaseVersion (example_env ''pg'') unrecognised_world)) \<and>
   fst (init (example_env ''pg'') unrecognised_world) = Rejected (JError ''table posts already exists'') \<and>
   issued (trace (snd (init (example_env ''pg'') unrecognised_world))) =
     [HasTable ''settings'', SelectVersions, CreateTable ''posts''] \<and>
   exit_events (trace (snd (init (example_env ''pg'') unrecognised_world))) = []"
  by code_simp

subsection \<open>C2: a database newer than the software\<close>

text \<open>
  Claim C2, amended: whenever the resolved current version and the target (default)
  version are version markers (three decimal digits, zero-padded) and the current one is
  numerically greater, \<^verbatim>\<open>init\<close> ends in the process-terminating error: the outcome is
  \<open>Exited\<close>, the only calls are the two reads of the version resolve followed by
  \<^verbatim>\<open>logErrorAndExit\<close>, no statement that changes the database is issued, and tables,
  settings rows and the \<^verbatim>\<open>posts\<close> columns are left as they were. (\<^verbatim>\<open>init\<close> compares the two
  strings; on other strings the order of the strings need not be the order of the numbers.)
\<close>

theorem newer_database_refused:
  assumes cur: "getDatabaseVersion env w = (Resolved cur, w1)"
    and tgt: "getDefaultDatabaseVersion env w1 = (Resolved target, w2)"
    and v: "is_version cur" "is_version target"
    and gt: "js_gt (parseInt cur) (parseInt target)"
  shows "fst (init env w) = Exited \<and>
         tables (snd (init env w)) = tables w \<and>
         settings (snd (init env w)) = settings w \<and>
         posts_fields (snd (init env w)) = posts_fields w \<and>
         trace (snd (init env w)) = trace w @ read_version_events @
           [LogErrorAndExit ''Your database is not compatible with this version of Ghost''
              (JStr ''You will need to create a new database'')] \<and>
         filter is_mutation (issued (drop (length (trace w)) (trace (snd (init env w))))) = []"
proof -
  have lt: "dec_val target < dec_val cur" using gt v by (simp add: js_gt_parseInt_versions)
  then have ne: "cur \<noteq> target" by auto
  have nlt: "\<not> js_str_lt cur target" "js_str_lt target cur"
    using lt v by (simp_all add: js_str_lt_versions)
  have i: "init env w = logErrorAndExit ''Your database is not compatible with this version of Ghost''
             (JStr ''You will need to create a new database'') w2"
    using init_resolved_versions[OF cur tgt] ne nlt by simp
  have w1: "w1 = after_read w" using cur by (rule getDatabaseVersion_resolved_trace)
  have f2: "tables w2 = tables w1" "settings w2 = settings w1" "posts_fields w2 = posts_fields w1"
      "trace w2 = trace w1"
    using getDefaultDatabaseVersion_frame[OF tgt] by simp_all
  have tr: "trace w1 = trace w @ read_version_events"
    by (simp add: w1 after_read_def read_version_events_def)
  show ?thesis
    by (simp add: i logErrorAndExit_def f2 tr) (simp add: w1 after_read_def read_version_events_def issued_def)
qed

theorem newer_database_refused_witness:
  "getDatabaseVersion (example_env ''pg'') newer_world = (Resolved ''005'', after_read newer_world) \<and>
   is_version ''005'' \<and> is_version ''004'' \<and> js_gt (parseInt ''005'') (parseInt ''004'') \<and>
   fst (init (example_env ''pg'') newer_world) = Exited \<and>
   tables (snd (init (example_env ''pg'') newer_world)) = tables newer_world \<and>
   settings (snd (init (example_env ''pg'') newer_world)) = settings newer_world \<and>
   filter is_mutation (issued (drop (length (trace newer_world))
      (trace (snd (init (example_env ''pg'') newer_world))))) = []"
proof -
  have h1: "getDatabaseVersion (example_env ''pg'') newer_world = (Resolved ''005'', after_read newer_world)"
    by code_simp
  have h2: "getDefaultDatabaseVersion (example_env ''pg'') (after_read newer_world) =
      (Resolved ''004'', (after_read newer_world)\<lparr>defaultDatabaseVersion := Some ''004''\<rparr>)"
    by code_simp
  have h3: "is_version ''005''" "is_version ''004''" by code_simp+
  have h4: "js_gt (parseInt ''005'') (parseInt ''004'')" by code_simp
  from newer_database_refused[OF h1 h2 h3 h4] h1 h3 h4 show ?thesis by blast
qed

theorem newer_database_refused_counterexample:
  "fst (getDatabaseVersion (example_env ''pg'') unpadded_newer_world) = Resolved ''0005'' \<and>
   fst (getDefaultDatabaseVersion (example_env ''pg'')
         (snd (getDatabaseVersion (example_env ''pg'') unpadded_newer_world))) = Resolved ''004'' \<and>
   js_gt (parseInt ''0005'') (parseInt ''004'') \<and>
   fst (init (example_env ''pg'') unpadded_newer_world) = Resolved () \<and>
   issued (trace (snd (init (example_env ''pg'') unpadded_newer_world))) =
     [HasTable ''settings'', SelectVersions, PgTables,
      DropTableIfExists ''old_widgets'', CreateTable ''users'', UpdateVersion (Some ''004'')] \<and>
   settings (snd (init (example_env ''pg'') unpadded_newer_world)) = [(''databaseVersion'', Some ''004'')] \<and>
   exit_events (trace (snd (init (example_env ''pg'') unpadded_newer_world))) = []"
  by code_simp

subsection \<open>C3: the table diff of the upgrade path\<close>

text \<open>
  Claim C3, amended: take a database with distinct table names and a Registry with
  distinct names that does not declare SQLite's internal \<^verbatim>\<open>sqlite_sequence\<close>. The live tables
  are the names the enumeration of the engine answers (for SQLite without
  \<^verbatim>\<open>sqlite_sequence\<close>). If the engine is one of the three supported ones and the MySQL
  repair query does not fail (it fails on MySQL when there are live tables but no \<^verbatim>\<open>posts\<close>
  table), \<^verbatim>\<open>migrateUp\<close> resolves after exactly one \<^verbatim>\<open>dropTableIfExists\<close> for every live table
  that the Registry does not declare and exactly one \<^verbatim>\<open>createTable\<close> for every Registry
  table that is not live, one after the other (each statement settles before the next is
  issued), all drops before all creates. Otherwise \<^verbatim>\<open>migrateUp\<close> is rejected and issues no
  drop and no create.
\<close>

theorem migrateUp_table_diff:
  assumes dl: "distinct (tables w)"
    and dr: "distinct (schemaTables env)"
    and sq: "''sqlite_sequence'' \<notin> set (schemaTables env)"
  shows "(if supported_client env \<and> \<not> repair_query_fails env w
          then \<exists>w' ds cs.
                 migrateUp env w = (Resolved (), w') \<and>
                 filter is_table_event (drop (length (trace w)) (trace w')) =
                   run_in_sequence (map DropTableIfExists ds @ map CreateTable cs) \<and>
                 (\<forall>t. count_list ds t =
                    (if t \<in> set (live_tables env w) \<and> t \<notin> set (schemaTables env) then 1 else 0)) \<and>
                 (\<forall>t. count_list cs t =
                    (if t \<in> set (schemaTables env) \<and> t \<notin> set (live_tables env w) then 1 else 0))
          else \<exists>e w'.
                 migrateUp env w = (Rejected e, w') \<and>
                 filter is_table_event (drop (length (trace w)) (trace w')) = [])"
proof (cases "supported_client env")
  case False
  then show ?thesis by (simp add: migrateUp_unsupported)
next
  case sc: True
  show ?thesis
  proof (cases "repair_query_fails env w")
    case True
    then show ?thesis using sc migrateUp_repair_fails[OF sc True] by simp
  next
    case False
    from getTables_supported[OF sc, of w] obtain q where
      g: "getTables env w = (Resolved (live_tables env w), settle q (issue q w))"
      by blast
    have p: "client env = ''mysql'' \<and> live_tables env w \<noteq> [] \<longrightarrow> ''posts'' \<in> set (tables w)"
      using False unfolding repair_query_fails_def by blast
    from migrateUp_diff_when_repair_succeeds[OF g dl dr sq p] sc False
    show ?thesis by simp
  qed
qed

theorem migrateUp_table_diff_witness:
  "distinct (tables outdated_world) \<and> distinct (schemaTables (example_env ''mysql'')) \<and>
   ''sqlite_sequence'' \<notin> set (schemaTables (example_env ''mysql'')) \<and>
   supported_client (example_env ''mysql'') \<and>
   \<not> repair_query_fails (example_env ''mysql'') outdated_world \<and>
   live_tables (example_env ''mysql'') outdated_world = [''posts'', ''settings'', ''old_widgets''] \<and>
   (\<exists>w' ds cs.
     migrateUp (example_env ''mysql'') outdated_world = (Resolved (), w') \<and>
     filter is_table_event (drop (length (trace outdated_world)) (trace w')) =
       run_in_sequence (map DropTableIfExists ds @ map CreateTable cs) \<and>
     (\<forall>t. count_list ds t =
        (if t \<in> set (live_tables (example_env ''mysql'') outdated_world) \<and>
            t \<notin> set (schemaTables (example_env ''mysql'')) then 1 else 0)) \<and>
     (\<forall>t. count_list cs t =
        (if t \<in> set (schemaTables (example_env ''mysql'')) \<and>
            t \<notin> set (live_tables (example_env ''mysql'') outdated_world) then 1 else 0))) \<and>
   distinct (tables mysql_without_posts) \<and>
   repair_query_fails (example_env ''mysql'') mysql_without_posts \<and>
   (\<exists>e w'. migrateUp (example_env ''mysql'') mysql_without_posts = (Rejected e, w') \<and>
      filter is_table_event (drop (length (trace mysql_without_posts)) (trace w')) = [])"
proof -
  have h2: "distinct (tables outdated_world)" by code_simp
  have h3: "distinct (schemaTables (example_env ''mysql''))" by code_simp
  have h4: "''sqlite_sequence'' \<notin> set (schemaTables (example_env ''mysql''))" by code_simp
  have h5: "supported_client (example_env ''mysql'')" by code_simp
  have h6: "\<not> repair_query_fails (example_env ''mysql'') outdated_world" by code_simp
  have h7: "live_tables (example_env ''mysql'') outdated_world = [''posts'', ''settings'', ''old_widgets'']"
    by code_simp
  have k2: "distinct (tables mysql_without_posts)" by code_simp
  have k6: "repair_query_fails (example_env ''mysql'') mysql_without_posts" by code_simp
  note a = migrateUp_table_diff[OF h2 h3 h4]
  note b = migrateUp_table_diff[OF k2 h3 h4]
  have c1: "\<exists>w' ds cs.
     migrateUp (example_env ''mysql'') outdated_world = (Resolved (), w') \<and>
     filter is_table_event (drop (length (trace outdated_world)) (trace w')) =
       run_in_sequence (map DropTableIfExists ds @ map CreateTable cs) \<and>
     (\<forall>t. count_list ds t =
        (if t \<in> set (live_tables (example_env ''mysql'') outdated_world) \<and>
            t \<notin> set (schemaTables (example_env ''mysql'')) then 1 else 0)) \<and>
     (\<forall>t. count_list cs t =
        (if t \<in> set (schemaTables (example_env ''mysql'')) \<and>
            t \<notin> set (live_tables (example_env ''mysql'') outdated_world) then 1 else 0))"
    using a h5 h6 by simp
  have c2: "\<exists>e w'. migrateUp (example_env ''mysql'') mysql_without_posts = (Rejected e, w') \<and>
      filter is_table_event (drop (length (trace mysql_without_posts)) (trace w')) = []"
    using b k6 by simp
  show ?thesis using h2 h3 h4 h5 h6 h7 k2 k6 c1 c2 by blast
qed

theorem migrateUp_table_diff_counterexample:
  "client (example_env ''mysql'') = ''mysql'' \<and>
   fst (getTables (example_env ''mysql'') mysql_without_posts) = Resolved [''settings'', ''old_widgets''] \<and>
   schemaTables (example_env ''mysql'') = [''posts'', ''users'', ''settings''] \<and>
   fst (migrateUp (example_env ''mysql'') mysql_without_posts) =
     Rejected (JError ''table posts does not exist'') \<and>
   issued (trace (snd (migrateUp (example_env ''mysql'') mysql_without_posts))) =
     [ShowTables, ShowPostFields] \<and>
   tables (snd (migrateUp (example_env ''mysql'') mysql_without_posts)) = [''settings'', ''old_widgets'']"
  by code_simp

subsection \<open>C4: the persisted version\<close>

text \<open>
  Claim C4, amended: \<^verbatim>\<open>setDatabaseVersion\<close> takes no argument; it writes the cached
  default version into the rows keyed \<^verbatim>\<open>databaseVersion\<close>. If the settings table exists and
  holds such a row, and every legacy \<^verbatim>\<open>currentVersion\<close> row is a version marker that is not
  greater than the default version, then \<^verbatim>\<open>setDatabaseVersion\<close> resolves and a subsequent
  \<^verbatim>\<open>getDatabaseVersion\<close> returns the default version. In particular, when all marker rows
  are version markers, one of them is keyed \<^verbatim>\<open>databaseVersion\<close>, the resolved version is
  below the target and \<^verbatim>\<open>init\<close> resolves, then \<^verbatim>\<open>getDatabaseVersion\<close> on the resulting
  database returns the target version.
\<close>

theorem persisted_version:
  assumes st: "''settings'' \<in> set (tables w)"
    and row: "has_databaseVersion_row w"
    and vt: "is_version target"
  shows "(defaultDatabaseVersion w = Some target \<and> legacy_at_most w target \<longrightarrow>
            (\<exists>n. fst (setDatabaseVersion w) = Resolved n) \<and>
            fst (getDatabaseVersion env (snd (setDatabaseVersion w))) = Resolved target) \<and>
         (\<forall>cur w1 w2 u w'.
            getDatabaseVersion env w = (Resolved cur, w1) \<and>
            getDefaultDatabaseVersion env w1 = (Resolved target, w2) \<and>
            list_all is_version_value (version_rows w) \<and>
            js_str_lt cur target \<and>
            init env w = (Resolved u, w') \<longrightarrow>
            fst (getDatabaseVersion env w') = Resolved target)"
proof (intro conjI allI impI)
  assume a: "defaultDatabaseVersion w = Some target \<and> legacy_at_most w target"
  from set_then_get[OF st row vt, of env] a
  obtain n w1 where "setDatabaseVersion w = (Resolved n, w1)"
      "fst (getDatabaseVersion env w1) = Resolved target"
    by blast
  then show "\<exists>n. fst (setDatabaseVersion w) = Resolved n"
    and "fst (getDatabaseVersion env (snd (setDatabaseVersion w))) = Resolved target"
    by simp_all
next
  fix cur w1 w2 u w'
  assume a: "getDatabaseVersion env w = (Resolved cur, w1) \<and>
            getDefaultDatabaseVersion env w1 = (Resolved target, w2) \<and>
            list_all is_version_value (version_rows w) \<and>
            js_str_lt cur target \<and>
            init env w = (Resolved u, w')"
  then show "fst (getDatabaseVersion env w') = Resolved target"
    using init_upgrade_persists[of env w cur w1 target w2 u w'] vt row by blast
qed

theorem persisted_version_witness:
  "''settings'' \<in> set (tables outdated_world) \<and> has_databaseVersion_row outdated_world \<and>
   is_version ''004'' \<and>
   legacy_at_most (outdated_world\<lparr>defaultDatabaseVersion := Some ''004''\<rparr>) ''004'' \<and>
   fst (getDatabaseVersion (example_env ''mysql'')
         (snd (setDatabaseVersion (outdated_world\<lparr>defaultDatabaseVersion := Some ''004''\<rparr>)))) = Resolved ''004'' \<and>
   fst (init (example_env ''mysql'') outdated_world) = Resolved () \<and>
   fst (getDatabaseVersion (example_env ''mysql'') (snd (init (example_env ''mysql'') outdated_world))) =
     Resolved ''004''"
proof -
  let ?E = "example_env ''mysql''"
  let ?W = "outdated_world\<lparr>defaultDatabaseVersion := Some ''004''\<rparr>"
  have h1: "''settings'' \<in> set (tables outdated_world)" "''settings'' \<in> set (tables ?W)" by code_simp+
  have h2: "has_databaseVersion_row outdated_world" "has_databaseVersion_row ?W" by code_simp+
  have h3: "is_version ''004''" by code_simp
  have h4: "defaultDatabaseVersion ?W = Some ''004''" by simp
  have h5: "legacy_at_most ?W ''004''" by code_simp
  have c1: "fst (getDatabaseVersion ?E (snd (setDatabaseVersion ?W))) = Resolved ''004''"
    using persisted_version[OF h1(2) h2(2) h3, of ?E] h4 h5 by blast
  have g1: "getDatabaseVersion ?E outdated_world = (Resolved ''003'', after_read outdated_world)"
    by code_simp
  have g2: "getDefaultDatabaseVersion ?E (after_read outdated_world) =
      (Resolved ''004'', (after_read outdated_world)\<lparr>defaultDatabaseVersion := Some ''004''\<rparr>)"
    by code_simp
  have g3: "list_all is_version_value (version_rows outdated_world)" by code_simp
  have g4: "js_str_lt ''003'' ''004''" by code_simp
  have g5: "fst (init ?E outdated_world) = Resolved ()" by code_simp
  then have g5': "init ?E outdated_world = (Resolved (), snd (init ?E outdated_world))"
    by (metis prod.collapse)
  have c2: "fst (getDatabaseVersion ?E (snd (init ?E outdated_world))) = Resolved ''004''"
    using persisted_version[OF h1(1) h2(1) h3, of ?E] g1 g2 g3 g4 g5' by blast
  show ?thesis using h1 h2 h3 h5 c1 g5 c2 by simp
qed

theorem persisted_version_counterexample:
  "''settings'' \<in> set (tables legacy_only_world) \<and>
   fst (setDatabaseVersion (legacy_only_world\<lparr>defaultDatabaseVersion := Some ''004''\<rparr>)) = Resolved 0 \<and>
   fst (getDatabaseVersion (example_env ''sqlite3'')
         (snd (setDatabaseVersion (legacy_only_world\<lparr>defaultDatabaseVersion := Some ''004''\<rparr>)))) =
     Resolved ''002'' \<and>
   fst (init (example_env ''sqlite3'') legacy_only_world) = Resolved () \<and>
   defaultDatabaseVersion (snd (init (example_env ''sqlite3'') legacy_only_world)) = Some ''004'' \<and>
   fst (getDatabaseVersion (example_env ''sqlite3'') (snd (init (example_env ''sqlite3'') legacy_only_world))) =
     Resolved ''002'' \<and>
   ''settings'' \<in> set (tables newer_legacy_world) \<and>
   fst (setDatabaseVersion newer_legacy_world) = Resolved 1 \<and>
   fst (getDatabaseVersion (example_env ''sqlite3'') (snd (setDatabaseVersion newer_legacy_world))) =
     Resolved ''005''"
  by code_simp

subsection \<open>C5: resolution of the legacy markers\<close>

text \<open>
  Claim C5, amended: when the settings table exists and every row keyed
  \<^verbatim>\<open>databaseVersion\<close> or \<^verbatim>\<open>currentVersion\<close> holds a version marker (three decimal digits,
  zero-padded), \<^verbatim>\<open>getDatabaseVersion\<close> resolves with \<^verbatim>\<open>'000'\<close> if there is no such row, and
  otherwise with the value of one of these rows whose number is greater than or equal to
  the number of every one of them.
\<close>

theorem resolves_greatest_marker:
  assumes "''settings'' \<in> set (tables w)"
    and "list_all is_version_value (version_rows w)"
  shows "\<exists>r m. fst (getDatabaseVersion env w) = Resolved r \<and>
            (if version_rows w = [] then r = ''000'' else Some r \<in> set (version_rows w)) \<and>
            parseInt r = Some m \<and>
            (\<forall>s. Some s \<in> set (version_rows w) \<longrightarrow> (\<exists>n. parseInt s = Some n \<and> n \<le> m))"
proof -
  from resolve_valid_rows[OF assms, of env]
  obtain r where r: "getDatabaseVersion env w = (Resolved r, after_read w)" "is_version r"
      "(if version_rows w = [] then r = ''000'' else Some r \<in> set (version_rows w))"
      "\<forall>s. Some s \<in> set (version_rows w) \<longrightarrow> dec_val s \<le> dec_val r"
    by blast
  have "\<exists>n. parseInt s = Some n \<and> n \<le> int (dec_val r)" if "Some s \<in> set (version_rows w)" for s
  proof -
    have "is_version_value (Some s)" using assms(2) that by (simp add: list_all_iff)
    then have "parseInt s = Some (int (dec_val s))"
      by (simp add: is_version_value_def is_version_parseInt)
    then show ?thesis using r(4) that by simp
  qed
  then show ?thesis using r(1,2,3) by (auto simp: is_version_parseInt)
qed

theorem resolves_greatest_marker_witness:
  "''settings'' \<in> set (tables legacy_pair_world) \<and>
   list_all is_version_value (version_rows legacy_pair_world) \<and>
   fst (getDatabaseVersion (example_env ''pg'') legacy_pair_world) = Resolved ''003''"
proof -
  have h1: "''settings'' \<in> set (tables legacy_pair_world)" by code_simp
  have h2: "list_all is_version_value (version_rows legacy_pair_world)" by code_simp
  have rows: "version_rows legacy_pair_world = [Some ''003'', Some ''002'']" by code_simp
  have p: "parseInt ''003'' = Some 3" "parseInt ''002'' = Some 2" by code_simp+
  from resolves_greatest_marker[OF h1 h2, of "example_env ''pg''"]
  obtain r m where r: "fst (getDatabaseVersion (example_env ''pg'') legacy_pair_world) = Resolved r"
      "Some r \<in> set (version_rows legacy_pair_world)" "parseInt r = Some m"
      "\<forall>s. Some s \<in> set (version_rows legacy_pair_world) \<longrightarrow> (\<exists>n. parseInt s = Some n \<and> n \<le> m)"
    unfolding rows by auto
  have "r = ''003'' \<or> r = ''002''" using r(2) unfolding rows by simp
  moreover have "3 \<le> m" using r(4) p(1) unfolding rows by auto
  ultimately have "r = ''003''" using r(3) p(2) by auto
  then show ?thesis using h1 h2 r(1) by simp
qed

theorem resolves_greatest_marker_counterexample:
  "version_rows negative_marker_world = [Some ''-5''] \<and>
   \<not> js_isNaN (Some ''-5'') \<and> parseInt ''-5'' = Some (- 5) \<and>
   fst (getDatabaseVersion (example_env ''pg'') negative_marker_world) = Resolved ''000'' \<and>
   version_rows fractional_marker_world = [Some ''4.5'', Some ''4.9''] \<and>
   \<not> js_isNaN (Some ''4.5'') \<and> \<not> js_isNaN (Some ''4.9'') \<and>
   fst (getDatabaseVersion (example_env ''pg'') fractional_marker_world) = Resolved ''4.5'' \<and>
   version_rows exponent_marker_world = [Some ''1e3'', Some ''002''] \<and>
   \<not> js_isNaN (Some ''1e3'') \<and>
   fst (getDatabaseVersion (example_env ''pg'') exponent_marker_world) = Resolved ''002''"
  by code_simp

subsection \<open>C6: a marker that is not numeric\<close>

text \<open>
  Claim C6: a marker row that holds a non-numeric value is to make \<^verbatim>\<open>getDatabaseVersion\<close>
  fail with a fatal error, logged, with process exit, and never fall back to \<^verbatim>\<open>'000'\<close>.
  The code does not exit: with the rows \<^verbatim>\<open>{databaseVersion: '003', currentVersion: 'v2'}\<close> on
  SQLite, \<^verbatim>\<open>getDatabaseVersion\<close> is rejected with \<^verbatim>\<open>Database version is not recognised\<close> and
  does not call the error sink; its caller \<^verbatim>\<open>init\<close>, by the test
  \<^verbatim>\<open>err.message || err === 'Settings table does not exist'\<close> of its rejection handler,
  continues as \<^verbatim>\<open>migrateUpFreshDb\<close>, sends \<^verbatim>\<open>CREATE TABLE posts\<close> and never calls the error sink
  either. Had the raised value been a plain string, the same \<^verbatim>\<open>init\<close> would have exited.
  The empty string and \<^verbatim>\<open>NULL\<close> are not caught by \<^verbatim>\<open>isNaN\<close>: with these two values the
  resolve answers \<^verbatim>\<open>'000'\<close>.
\<close>

theorem non_numeric_marker_not_fatal:
  "version_rows garbled_legacy_world = [Some ''003'', Some ''v2''] \<and>
   js_isNaN (Some ''v2'') \<and>
   fst (getDatabaseVersion (example_env ''sqlite3'') garbled_legacy_world) =
     Rejected (JError ''Database version is not recognised'') \<and>
   exit_events (trace (snd (getDatabaseVersion (example_env ''sqlite3'') garbled_legacy_world))) = [] \<and>
   init (example_env ''sqlite3'') garbled_legacy_world =
     migrateUpFreshDb (example_env ''sqlite3'')
       (snd (getDatabaseVersion (example_env ''sqlite3'') garbled_legacy_world)) \<and>
   fst (init (example_env ''sqlite3'') garbled_legacy_world) =
     Rejected (JError ''table posts already exists'') \<and>
   issued (trace (snd (init (example_env ''sqlite3'') garbled_legacy_world))) =
     [HasTable ''settings'', SelectVersions, CreateTable ''posts''] \<and>
   exit_events (trace (snd (init (example_env ''sqlite3'') garbled_legacy_world))) = [] \<and>
   fst (init ((example_env ''sqlite3'')\<lparr>throwError := JStr\<rparr>) garbled_legacy_world) = Exited \<and>
   version_rows blank_marker_world = [Some [], None] \<and>
   fst (getDatabaseVersion (example_env ''sqlite3'') blank_marker_world) = Resolved ''000''"
  by code_simp

subsection \<open>C7: successor and predecessor of a version\<close>

text \<open>
  Claim C7: for every version marker \<open>v\<close> other than \<^verbatim>\<open>'000'\<close>,
  \<^verbatim>\<open>getVersionAfter(getVersionBefore(v))\<close> is \<open>v\<close>; and whenever the number computed by
  \<^verbatim>\<open>getVersionAfter\<close> or \<^verbatim>\<open>getVersionBefore\<close> lies between 0 and 999, the padded result is a
  string of exactly three decimal digits. An input that does not parse counts as \<^verbatim>\<open>'000'\<close>,
  so that \<^verbatim>\<open>getVersionAfter\<close> answers \<^verbatim>\<open>'001'\<close>.
\<close>

theorem version_roundtrip_and_padding:
  "(is_version v \<and> v \<noteq> ''000'' \<longrightarrow> getVersionAfter (getVersionBefore v) = v) \<and>
   (\<forall>n. parseInt v = Some n \<and> 0 \<le> n + 1 \<and> n + 1 \<le> 999 \<longrightarrow> is_version (getVersionAfter v)) \<and>
   (\<forall>n. parseInt v = Some n \<and> 0 \<le> n - 1 \<and> n - 1 \<le> 999 \<longrightarrow> is_version (getVersionBefore v)) \<and>
   (parseInt v = None \<longrightarrow> getVersionAfter v = ''001'')"
proof (intro conjI allI impI)
  assume "is_version v \<and> v \<noteq> ''000''"
  then show "getVersionAfter (getVersionBefore v) = v" by (simp add: roundtrip)
next
  fix n assume a: "parseInt v = Some n \<and> 0 \<le> n + 1 \<and> n + 1 \<le> 999"
  then have "getVersionAfter v = pad3 (nat_digits (nat (n + 1)))" by (simp add: getVersionAfter_num)
  moreover have "nat (n + 1) < 1000" using a by linarith
  ultimately show "is_version (getVersionAfter v)" by (simp add: is_version_pad3_nat_digits)
next
  fix n assume a: "parseInt v = Some n \<and> 0 \<le> n - 1 \<and> n - 1 \<le> 999"
  then have "getVersionBefore v = pad3 (nat_digits (nat (n - 1)))" by (simp add: getVersionBefore_num)
  moreover have "nat (n - 1) < 1000" using a by linarith
  ultimately show "is_version (getVersionBefore v)" by (simp add: is_version_pad3_nat_digits)
next
  assume "parseInt v = None"
  then show "getVersionAfter v = ''001''" by (rule getVersionAfter_NaN)
qed

theorem version_roundtrip_and_padding_witness:
  "is_version ''042'' \<and> ''042'' \<noteq> ''000'' \<and> getVersionAfter (getVersionBefore ''042'') = ''042'' \<and>
   parseInt ''042'' = Some 42 \<and> is_version (getVersionAfter ''042'') \<and>
   is_version (getVersionBefore ''042'') \<and>
   parseInt ''abc'' = None \<and> getVersionAfter ''abc'' = ''001''"
proof -
  have h1: "is_version ''042'' \<and> ''042'' \<noteq> ''000''" by code_simp
  have h2: "parseInt ''042'' = Some 42" by code_simp
  have h3: "parseInt ''abc'' = None" by code_simp
  note t = version_roundtrip_and_padding[of "''042''"]
  have c1: "getVersionAfter (getVersionBefore ''042'') = ''042''" using t h1 by blast
  have c2: "is_version (getVersionAfter ''042'')" using t h2 by force
  have c3: "is_version (getVersionBefore ''042'')" using t h2 by force
  have c4: "getVersionAfter ''abc'' = ''001''"
    using version_roundtrip_and_padding[of "''abc''"] h3 by blast
  show ?thesis using h1 h2 h3 c1 c2 c3 c4 by blast
qed

subsection \<open>C8: the reset\<close>

text \<open>
  Claim C8: \<^verbatim>\<open>reset\<close> resolves after running one \<^verbatim>\<open>dropTableIfExists\<close> for every entry of
  the Registry, in the reverse of the Registry order, each statement settling before the
  next is issued; it issues nothing else, in particular no update of the version marker.
\<close>

theorem reset_reverse_order:
  "fst (reset env w) = Resolved (map (\<lambda>_. ()) (schemaTables env)) \<and>
   trace (snd (reset env w)) =
     trace w @ run_in_sequence (map DropTableIfExists (rev (schemaTables env))) \<and>
   filter (\<lambda>q. case q of UpdateVersion v \<Rightarrow> True | _ \<Rightarrow> False)
     (issued (drop (length (trace w)) (trace (snd (reset env w))))) = []"
proof -
  from sequence_drops[of "rev (schemaTables env)" w] obtain w' where w':
    "sequence (map (\<lambda>table. deleteTable table) (rev (schemaTables env))) w =
       (Resolved (map (\<lambda>_. ()) (rev (schemaTables env))), w')"
    "trace w' = trace w @ run_in_sequence (map DropTableIfExists (rev (schemaTables env)))"
    by blast
  have r: "reset env w = (Resolved (map (\<lambda>_. ()) (rev (schemaTables env))), w')"
    using w'(1) by (simp add: reset_def rev_map)
  have "map (\<lambda>_. ()) (rev (schemaTables env)) = map (\<lambda>_. ()) (schemaTables env)"
    by (simp add: map_replicate_const)
  moreover have "filter (\<lambda>q. case q of UpdateVersion v \<Rightarrow> True | _ \<Rightarrow> False) (map DropTableIfExists ts) = []" for ts
    by (induction ts) simp_all
  ultimately show ?thesis by (simp add: r w'(2))
qed

theorem reset_reverse_order_witness:
  "trace (snd (reset (example_env ''pg'') outdated_world)) =
     [Issued (DropTableIfExists ''settings''), Settled (DropTableIfExists ''settings''),
      Issued (DropTableIfExists ''users''), Settled (DropTableIfExists ''users''),
      Issued (DropTableIfExists ''posts''), Settled (DropTableIfExists ''posts'')]"
proof -
  have t: "trace outdated_world = []" by code_simp
  have s: "schemaTables (example_env ''pg'') = [''posts'', ''users'', ''settings'']" by code_simp
  from reset_reverse_order[of "example_env ''pg''" outdated_world]
  show ?thesis unfolding t s by simp
qed

subsection \<open>C9: the repair of the posts table on MySQL\<close>

text \<open>
  Claim C9: on MySQL the widening of \<^verbatim>\<open>posts.html\<close> and \<^verbatim>\<open>posts.markdown\<close> is to be
  finished before any \<^verbatim>\<open>createTable\<close> or \<^verbatim>\<open>dropTableIfExists\<close> is issued. The code does not
  wait for it: on a MySQL database with the tables \<^verbatim>\<open>posts\<close>, \<^verbatim>\<open>settings\<close> and \<^verbatim>\<open>old_widgets\<close>
  whose \<^verbatim>\<open>posts.html\<close> column has type \<^verbatim>\<open>text\<close>, \<^verbatim>\<open>migrateUp\<close> issues the \<^verbatim>\<open>ALTER TABLE\<close>
  statement and, without its settlement in between, the drop of \<^verbatim>\<open>old_widgets\<close> and the
  creation of \<^verbatim>\<open>users\<close>; when \<^verbatim>\<open>migrateUp\<close> resolves the \<^verbatim>\<open>ALTER TABLE\<close> statement is still
  in flight.
\<close>

theorem repair_not_awaited:
  "trace (snd (migrateUp (example_env ''mysql'') outdated_world)) =
     [Issued ShowTables, Settled ShowTables,
      Issued ShowPostFields, Settled ShowPostFields,
      Issued (AlterPostsModify ''html''),
      Issued (DropTableIfExists ''old_widgets''), Settled (DropTableIfExists ''old_widgets''),
      Issued (CreateTable ''users''), Settled (CreateTable ''users'')] \<and>
   inflight (snd (migrateUp (example_env ''mysql'') outdated_world)) = [AlterPostsModify ''html'']"
  by code_simp

subsection \<open>C10: an empty enumeration of live tables\<close>

text \<open>
  Claim C10: when the enumeration of live tables answers with the empty list,
  \<^verbatim>\<open>migrateUp\<close> issues no repair query (neither \<^verbatim>\<open>SHOW FIELDS\<close> nor \<^verbatim>\<open>ALTER TABLE\<close>), whatever
  the engine, and goes on to create every Registry table, in Registry order, each
  statement settling before the next is issued; afterwards every Registry table exists.
  The Registry names are distinct and do not include \<^verbatim>\<open>sqlite_sequence\<close>.
\<close>

theorem migrateUp_empty_enumeration:
  assumes g: "getTables env w = (Resolved [], w1)"
    and dr: "distinct (schemaTables env)"
    and sq: "''sqlite_sequence'' \<notin> set (schemaTables env)"
  shows "\<exists>w'. migrateUp env w = (Resolved (), w') \<and>
     trace w' = trace w1 @ run_in_sequence (map CreateTable (schemaTables env)) \<and>
     filter is_repair_query (issued (drop (length (trace w)) (trace w'))) = [] \<and>
     set (schemaTables env) \<subseteq> set (tables w')"
proof -
  from getTables_resolved[OF g] obtain q where q: "q \<in> {SqliteMaster, ShowTables, PgTables}"
      "w1 = settle q (issue q w)"
    by blast
  have f1: "tables w1 = tables w" "trace w1 = trace w @ awaited q" by (simp_all add: q(2) awaited_def)
  have d0: "difference [] (schemaTables env) = []" "difference (schemaTables env) [] = schemaTables env"
    by (simp_all add: difference_def)
  have "set (difference (schemaTables env) []) \<inter> set (tables w1) = {}"
    using getTables_adds_fresh[OF g sq] f1 by simp
  from sequence_diff_commands[OF dr this] obtain rs w3 where w3:
      "sequence (diff_commands env []) w1 = (Resolved rs, w3)"
      "tables w3 = filter (\<lambda>t. t \<notin> set (difference [] (schemaTables env))) (tables w1) @
                    difference (schemaTables env) []"
      "trace w3 = trace w1 @ run_in_sequence
           (map DropTableIfExists (difference [] (schemaTables env)) @
            map CreateTable (difference (schemaTables env) []))"
    by blast
  have m: "migrateUp env w = (Resolved (), w3)"
    using w3(1) by (simp add: migrateUp_after_enumeration[OF g] p_then_def resolve_def)
  have nr: "filter is_repair_query (map CreateTable ts) = []" for ts
    by (induction ts) simp_all
  have "filter is_repair_query (issued (drop (length (trace w)) (trace w3))) = []"
    using q(1) by (auto simp: w3(3) f1 d0 awaited_def nr)
  then show ?thesis using m w3(2,3) by (auto simp: d0)
qed

theorem migrateUp_empty_enumeration_witness:
  "getTables (example_env ''mysql'') empty_world = (Resolved [], settle ShowTables (issue ShowTables empty_world)) \<and>
   distinct (schemaTables (example_env ''mysql'')) \<and>
   ''sqlite_sequence'' \<notin> set (schemaTables (example_env ''mysql'')) \<and>
   (\<exists>w'. migrateUp (example_env ''mysql'') empty_world = (Resolved (), w') \<and>
     trace w' = trace (settle ShowTables (issue ShowTables empty_world)) @
        run_in_sequence (map CreateTable (schemaTables (example_env ''mysql''))) \<and>
     filter is_repair_query (issued (drop (length (trace empty_world)) (trace w'))) = [] \<and>
     set (schemaTables (example_env ''mysql'')) \<subseteq> set (tables w'))"
proof -
  have h1: "getTables (example_env ''mysql'') empty_world = (Resolved [], settle ShowTables (issue ShowTables empty_world))"
    by code_simp
  have h3: "distinct (schemaTables (example_env ''mysql''))" by code_simp
  have h4: "''sqlite_sequence'' \<notin> set (schemaTables (example_env ''mysql''))" by code_simp
  from migrateUp_empty_enumeration[OF h1 h3 h4] h1 h3 h4 show ?thesis by blast
qed

end
